theory Spec2Isabelle
  imports Main "HOL-Library.Word" "HOL-Library.AList"
begin

unbundle bit_operations_syntax

section \<open>Data model of the execution core\<close>

text \<open>
  The embedding follows \<^verbatim>\<open>execution/execution.go\<close>.  Go's \<^verbatim>\<open>uint64\<close> is a
  64-bit word, so \<open>+\<close>, \<open>-\<close> and \<open>*\<close> wrap around as they do in Go.  An address is
  a 20-byte array, read as a 160-bit word.  A public key that unwraps to \<^verbatim>\<open>nil\<close>
  is \<open>None\<close>.
\<close>

type_synonym u64 = "64 word"
type_synonym address = "160 word"
type_synonym word256 = "256 word"
type_synonym bytes = "8 word list"
type_synonym pubkey = bytes

datatype error =
    ErrTxInvalidAddress
  | ErrTxDuplicateAddress
  | ErrTxInvalidAmount
  | ErrTxInsufficientFunds
  | ErrTxInvalidSignature
  | ErrTxInvalidSequence u64 u64
  | ErrTxInvalidPubKey
  | ErrTxUnknownPubKey
  | ErrTxInvalidString
  | Errorf string
  | Panic string

record base_permissions =
  Perms :: u64
  SetBit :: u64

record account_permissions =
  Base :: base_permissions
  Roles :: "string list"

record account =
  Address :: address
  PublicKey :: "pubkey option"
  Sequence :: u64
  Balance :: u64
  Code :: bytes
  Permissions :: account_permissions

record tx_input =
  in_Address :: address
  in_Amount :: u64
  in_Sequence :: u64
  in_Signature :: bytes
  in_PubKey :: "pubkey option"

record tx_output =
  out_Address :: address
  out_Amount :: u64

record perm_args =
  PermFlag :: u64
  pa_Address :: address
  pa_Permission :: u64
  pa_Value :: bool
  pa_Role :: string

text \<open>
  The four transaction families of the type switch in \<^verbatim>\<open>Execute\<close>.
  \<open>CallTx input address gasLimit fee data\<close>, \<open>NameTx input name data fee\<close>.
\<close>

datatype tx =
    SendTx "tx_input list" "tx_output list"
  | CallTx tx_input "address option" u64 u64 bytes
  | NameTx tx_input string string u64
  | PermissionsTx tx_input perm_args

record name_reg_entry =
  Name :: string
  Owner :: address
  Data :: string
  Expires :: u64

datatype topic =
    AccInput address
  | AccOutput address
  | NameReg string
  | PermissionsEvent u64

text \<open>
  \<^verbatim>\<open>events.EventDataTx{tx, ret, exception}\<close> under its topic.  The exception string
  is \<^verbatim>\<open>""\<close> exactly when \<^verbatim>\<open>err == nil\<close>; it is kept as the error itself.
\<close>

datatype event = Event topic tx bytes "error option" | VMEvent string bytes

text \<open>
  The VM is given the event cache as its sink (\<^verbatim>\<open>vmach.SetFireable(exe.eventCache)\<close>);
  what it fires there is a \<open>VMEvent\<close>, a topic and a payload the executor never reads.
\<close>

record tip =
  LastBlockHeight :: u64
  LastBlockHash :: bytes
  LastBlockTime :: int

text \<open>
  Modelled from the spec: the Block Cache (\<^verbatim>\<open>block_cache.go\<close> is not part of the
  sources).  It is a write-through cache over the backing state that exposes the same
  read interface plus in-place mutators; it is modelled by the view it presents:
  accounts by address, storage slots by (address, key), name-registry entries by name.
\<close>

record block_cache =
  accounts :: "address \<rightharpoonup> account"
  storage :: "address \<times> word256 \<Rightarrow> word256"
  names :: "string \<rightharpoonup> name_reg_entry"

text \<open>
  Modelled from the spec: the Tx Cache, a thinner cache layered above the Block Cache
  for one VM invocation.  It serves VM reads and buffers VM writes; \<open>Sync\<close> promotes
  the buffered writes.
\<close>

record tx_cache =
  tc_accounts :: "address \<rightharpoonup> account"
  tc_storage :: "address \<times> word256 \<Rightarrow> word256"

record vm_params =
  BlockHeight :: u64
  BlockHash :: bytes
  BlockTime :: int
  vm_GasLimit :: u64

datatype vm_result = VMErr bytes error "event list" | VMOk bytes tx_cache "event list"

text \<open>
  The collaborators the executor consumes and whose code is outside the sources:
  cryptographic primitives, the serialisation of sign bytes, the basic validation of
  inputs, outputs and name strings, the name-registry constants of package
  \<^verbatim>\<open>txs\<close>, the native-contract registry, contract address derivation and the VM.
  They are parameters of the model.  \<open>vmCall d txCache params caller callee code input
  value gas\<close> is \<^verbatim>\<open>vmach.Call\<close> on a VM created over \<open>txCache\<close>: it answers the
  return bytes and an error (\<open>VMErr ret err events\<close>), or the return bytes and the Tx
  Cache after the VM's writes (\<open>VMOk ret txCache' events\<close>; the caller and callee
  objects handed to the VM are the ones written to the Tx Cache just before, so their
  mutation by the VM, the value transfer included, shows there).  Either way it comes
  with the events the VM fired into the event cache during the call.
\<close>

record deps =
  pubKeyAddress :: "pubkey \<Rightarrow> address"
  verifyBytes :: "pubkey option \<Rightarrow> bytes \<Rightarrow> bytes \<Rightarrow> bool"
  signBytes :: "string \<Rightarrow> tx \<Rightarrow> bytes"
  inputValidateBasic :: "tx_input \<Rightarrow> error option"
  outputValidateBasic :: "tx_output \<Rightarrow> error option"
  validateStrings :: "string \<Rightarrow> string \<Rightarrow> error option"
  nameBaseCost :: "string \<Rightarrow> string \<Rightarrow> u64"
  nameCostPerBlock :: "u64 \<Rightarrow> u64"
  minNameRegistrationPeriod :: u64
  registeredNativeContract :: "address \<Rightarrow> bool"
  newContractAddress :: "address \<Rightarrow> u64 \<Rightarrow> address"
  globalPermissionsAddress :: address
  processGasLimit :: u64
  vmCall :: "tx_cache \<Rightarrow> vm_params \<Rightarrow> account \<Rightarrow> account \<Rightarrow> bytes \<Rightarrow> bytes \<Rightarrow> u64 \<Rightarrow> u64 \<Rightarrow> vm_result"

text \<open>
  The executor: \<open>state\<close> is the backing \<^verbatim>\<open>State\<close>, which presents the same read
  interface as the cache over it and is kept as that view; \<open>eventCache\<close> holds the
  events fired so far.
\<close>

record executor =
  chainID :: string
  exe_tip :: tip
  runCall :: bool
  state :: block_cache
  blockCache :: block_cache
  eventCache :: "event list"

section \<open>Accounts and caches\<close>

text \<open>
  Modelled from the spec: the mutators of a mutable account (package \<^verbatim>\<open>account\<close>
  is not part of the sources).  They return the account, as the chained call
  \<^verbatim>\<open>inAcc.IncSequence().SubtractFromBalance(tx.Fee)\<close> shows, and signal no error.
\<close>

definition IncSequence :: "account \<Rightarrow> account" where
  "IncSequence acc = acc\<lparr>Sequence := Sequence acc + 1\<rparr>"

definition SubtractFromBalance :: "account \<Rightarrow> u64 \<Rightarrow> account" where
  "SubtractFromBalance acc amount = acc\<lparr>Balance := Balance acc - amount\<rparr>"

definition AddToBalance :: "account \<Rightarrow> u64 \<Rightarrow> account" where
  "AddToBalance acc amount = acc\<lparr>Balance := Balance acc + amount\<rparr>"

definition SetPublicKey :: "account \<Rightarrow> pubkey \<Rightarrow> account" where
  "SetPublicKey acc pk = acc\<lparr>PublicKey := Some pk\<rparr>"

definition SetCode :: "account \<Rightarrow> bytes \<Rightarrow> account" where
  "SetCode acc c = acc\<lparr>Code := c\<rparr>"

definition ZeroAccountPermissions :: account_permissions where
  "ZeroAccountPermissions = \<lparr>Base = \<lparr>Perms = 0, SetBit = 0\<rparr>, Roles = []\<rparr>"

text \<open>Modelled from the spec: \<open>update_account\<close> stores the account under its address.\<close>

definition UpdateAccount :: "block_cache \<Rightarrow> account \<Rightarrow> block_cache" where
  "UpdateAccount bc acc = bc\<lparr>accounts := (accounts bc)(Address acc \<mapsto> acc)\<rparr>"

definition UpdateNameRegEntry :: "block_cache \<Rightarrow> name_reg_entry \<Rightarrow> block_cache" where
  "UpdateNameRegEntry bc entry = bc\<lparr>names := (names bc)(Name entry \<mapsto> entry)\<rparr>"

definition RemoveNameRegEntry :: "block_cache \<Rightarrow> string \<Rightarrow> block_cache" where
  "RemoveNameRegEntry bc n = bc\<lparr>names := (names bc)(n := None)\<rparr>"

text \<open>Modelled from the spec: a fresh Block Cache shows the backing state.\<close>

definition NewBlockCache :: "block_cache \<Rightarrow> block_cache" where
  "NewBlockCache st = st"

definition NewTxCache :: "block_cache \<Rightarrow> tx_cache" where
  "NewTxCache bc = \<lparr>tc_accounts = accounts bc, tc_storage = storage bc\<rparr>"

definition tc_UpdateAccount :: "tx_cache \<Rightarrow> account \<Rightarrow> tx_cache" where
  "tc_UpdateAccount tc acc = tc\<lparr>tc_accounts := (tc_accounts tc)(Address acc \<mapsto> acc)\<rparr>"

definition tc_Sync :: "tx_cache \<Rightarrow> block_cache \<Rightarrow> block_cache" where
  "tc_Sync tc bc = bc\<lparr>accounts := tc_accounts tc, storage := tc_storage tc\<rparr>"

text \<open>
  The cache hands out, for an address, an account that carries this address: every
  account is stored under its own address.
\<close>

definition keyed :: "(address \<rightharpoonup> account) \<Rightarrow> bool" where
  "keyed m = (\<forall>a acc. m a = Some acc \<longrightarrow> Address acc = a)"

section \<open>Validation kernel\<close>

text \<open>
  \<^verbatim>\<open>checkInputPubKey\<close>: the account and the input are both mutated in place by the
  source; the model returns both.
\<close>

definition checkInputPubKey :: "deps \<Rightarrow> account \<Rightarrow> tx_input \<Rightarrow> error + (account \<times> tx_input)" where
  "checkInputPubKey d acc inp =
     (case PublicKey acc of
        None \<Rightarrow>
          (case in_PubKey inp of
             None \<Rightarrow> Inl ErrTxUnknownPubKey
           | Some pk \<Rightarrow>
               if pubKeyAddress d pk \<noteq> Address acc then Inl ErrTxInvalidPubKey
               else Inr (SetPublicKey acc pk, inp))
      | Some _ \<Rightarrow> Inr (acc, inp\<lparr>in_PubKey := None\<rparr>))"

definition validateInput :: "deps \<Rightarrow> account \<Rightarrow> bytes \<Rightarrow> tx_input \<Rightarrow> error option" where
  "validateInput d acc sb inp =
     (case inputValidateBasic d inp of
        Some e \<Rightarrow> Some e
      | None \<Rightarrow>
          if \<not> verifyBytes d (PublicKey acc) sb (in_Signature inp) then Some ErrTxInvalidSignature
          else if Sequence acc + 1 \<noteq> in_Sequence inp
            then Some (ErrTxInvalidSequence (in_Sequence inp) (Sequence acc + 1))
          else if Balance acc < in_Amount inp then Some ErrTxInsufficientFunds
          else None)"

section \<open>Permission engine\<close>

text \<open>
  Modelled from the spec: package \<^verbatim>\<open>permission\<close> is not part of the sources.  A
  permission flag is one bit of a 64-bit bitmap; \<open>AllPermFlags\<close> has every known flag.
  \<open>base_Get\<close> answers \<open>None\<close> for \<^verbatim>\<open>ErrValueNotSet\<close> (the flag is not set in
  the mask) and the stored boolean otherwise.
\<close>

definition permission_Root :: u64 where "permission_Root = 1"
definition permission_Send :: u64 where "permission_Send = 2"
definition permission_Call :: u64 where "permission_Call = 4"
definition permission_CreateContract :: u64 where "permission_CreateContract = 8"
definition permission_CreateAccount :: u64 where "permission_CreateAccount = 16"
definition permission_Bond :: u64 where "permission_Bond = 32"
definition permission_Name :: u64 where "permission_Name = 64"
definition permission_HasBase :: u64 where "permission_HasBase = 128"
definition permission_SetBase :: u64 where "permission_SetBase = 256"
definition permission_UnsetBase :: u64 where "permission_UnsetBase = 512"
definition permission_SetGlobal :: u64 where "permission_SetGlobal = 1024"
definition permission_HasRole :: u64 where "permission_HasRole = 2048"
definition permission_AddRole :: u64 where "permission_AddRole = 4096"
definition permission_RemoveRole :: u64 where "permission_RemoveRole = 8192"
definition AllPermFlags :: u64 where "AllPermFlags = 16383"

definition base_Get :: "base_permissions \<Rightarrow> u64 \<Rightarrow> bool option" where
  "base_Get p ty = (if SetBit p AND ty = 0 then None else Some (Perms p AND ty \<noteq> 0))"

definition base_Set :: "base_permissions \<Rightarrow> u64 \<Rightarrow> bool \<Rightarrow> base_permissions" where
  "base_Set p ty v =
     \<lparr>Perms = (if v then Perms p OR ty else Perms p AND NOT ty), SetBit = SetBit p OR ty\<rparr>"

definition base_Unset :: "base_permissions \<Rightarrow> u64 \<Rightarrow> base_permissions" where
  "base_Unset p ty = p\<lparr>SetBit := SetBit p AND NOT ty\<rparr>"

definition AddRole :: "account_permissions \<Rightarrow> string \<Rightarrow> bool \<times> account_permissions" where
  "AddRole p r = (if r \<in> set (Roles p) then (False, p) else (True, p\<lparr>Roles := Roles p @ [r]\<rparr>))"

definition RmRole :: "account_permissions \<Rightarrow> string \<Rightarrow> bool \<times> account_permissions" where
  "RmRole p r = (if r \<in> set (Roles p) then (True, p\<lparr>Roles := removeAll r (Roles p)\<rparr>) else (False, p))"

text \<open>
  \<^verbatim>\<open>HasPermission\<close>: the account getter is \<open>None\<close> for the recursive call on the
  global permissions account (\<^verbatim>\<open>HasPermission(nil, ...)\<close>).  A missing global
  permissions account is fatal.
\<close>

function HasPermission :: "deps \<Rightarrow> (address \<rightharpoonup> account) option \<Rightarrow> account \<Rightarrow> u64 \<Rightarrow> error + bool" where
  "HasPermission d None acc perm =
     (if perm > AllPermFlags
        then Inl (Panic ''Checking an unknown permission in state should never happen'')
      else case base_Get (Base (Permissions acc)) perm of
             None \<Rightarrow> Inl (Panic ''All known global permissions should be set!'')
           | Some v \<Rightarrow> Inr v)"
| "HasPermission d (Some accountGetter) acc perm =
     (if perm > AllPermFlags
        then Inl (Panic ''Checking an unknown permission in state should never happen'')
      else case base_Get (Base (Permissions acc)) perm of
             None \<Rightarrow>
               (case accountGetter (globalPermissionsAddress d) of
                  None \<Rightarrow> Inl (Panic ''Could not get global permission account, but this must exist'')
                | Some g \<Rightarrow> HasPermission d None g perm)
           | Some v \<Rightarrow> Inr v)"
  by pat_completeness auto
termination
  by (relation "measure (\<lambda>(d, g, acc, perm). case g of None \<Rightarrow> 0 | Some _ \<Rightarrow> Suc 0)") auto

text \<open>
  A Go map \<^verbatim>\<open>map[acm.Address]acm.MutableAccount\<close> is an association list with one
  entry per key, in insertion order: \<^verbatim>\<open>accs[k] = v\<close> is \<open>AList.update k v\<close>,
  \<^verbatim>\<open>accs[k]\<close> is \<open>map_of accs k\<close>, and \<^verbatim>\<open>range accs\<close> visits the entries in list
  order (Go leaves the order open).
\<close>

type_synonym account_map = "(address \<times> account) list"

fun allHavePermission :: "deps \<Rightarrow> (address \<rightharpoonup> account) \<Rightarrow> account_map \<Rightarrow> u64 \<Rightarrow> error + bool" where
  "allHavePermission d accountGetter [] perm = Inr True"
| "allHavePermission d accountGetter (p # accs) perm =
     (case HasPermission d (Some accountGetter) (snd p) perm of
        Inl e \<Rightarrow> Inl e
      | Inr False \<Rightarrow> Inr False
      | Inr True \<Rightarrow> allHavePermission d accountGetter accs perm)"

definition hasSendPermission :: "deps \<Rightarrow> (address \<rightharpoonup> account) \<Rightarrow> account_map \<Rightarrow> error + bool" where
  "hasSendPermission d accountGetter accs = allHavePermission d accountGetter accs permission_Send"

definition hasCreateAccountPermission :: "deps \<Rightarrow> (address \<rightharpoonup> account) \<Rightarrow> account_map \<Rightarrow> error + bool" where
  "hasCreateAccountPermission d accountGetter accs =
     allHavePermission d accountGetter accs permission_CreateAccount"

definition hasNamePermission :: "deps \<Rightarrow> (address \<rightharpoonup> account) \<Rightarrow> account \<Rightarrow> error + bool" where
  "hasNamePermission d accountGetter acc = HasPermission d (Some accountGetter) acc permission_Name"

definition hasCallPermission :: "deps \<Rightarrow> (address \<rightharpoonup> account) \<Rightarrow> account \<Rightarrow> error + bool" where
  "hasCallPermission d accountGetter acc = HasPermission d (Some accountGetter) acc permission_Call"

definition hasCreateContractPermission :: "deps \<Rightarrow> (address \<rightharpoonup> account) \<Rightarrow> account \<Rightarrow> error + bool" where
  "hasCreateContractPermission d accountGetter acc =
     HasPermission d (Some accountGetter) acc permission_CreateContract"

section \<open>Inputs and outputs of a SendTx\<close>

fun getInputs_loop ::
  "deps \<Rightarrow> (address \<rightharpoonup> account) \<Rightarrow> account_map \<Rightarrow> tx_input list \<Rightarrow> error + (account_map \<times> tx_input list)" where
  "getInputs_loop d accountGetter accs [] = Inr (accs, [])"
| "getInputs_loop d accountGetter accs (inp # ins) =
     (if map_of accs (in_Address inp) \<noteq> None then Inl ErrTxDuplicateAddress
      else case accountGetter (in_Address inp) of
             None \<Rightarrow> Inl ErrTxInvalidAddress
           | Some acc \<Rightarrow>
               (case checkInputPubKey d acc inp of
                  Inl e \<Rightarrow> Inl e
                | Inr (acc', inp') \<Rightarrow>
                    (case getInputs_loop d accountGetter (AList.update (in_Address inp) acc' accs) ins of
                       Inl e \<Rightarrow> Inl e
                     | Inr (accs', ins') \<Rightarrow> Inr (accs', inp' # ins'))))"

text \<open>
  \<^verbatim>\<open>getInputs\<close> answers the accounts and, as the source modifies the inputs in
  place, the inputs after the public-key check.
\<close>

definition getInputs :: "deps \<Rightarrow> (address \<rightharpoonup> account) \<Rightarrow> tx_input list \<Rightarrow> error + (account_map \<times> tx_input list)" where
  "getInputs d accountGetter ins = getInputs_loop d accountGetter [] ins"

definition newOutputAccount :: "address \<Rightarrow> account" where
  "newOutputAccount a =
     \<lparr>Address = a, PublicKey = None, Sequence = 0, Balance = 0, Code = [],
      Permissions = ZeroAccountPermissions\<rparr>"

fun getOrMakeOutputs_loop ::
  "deps \<Rightarrow> (address \<rightharpoonup> account) \<Rightarrow> account_map \<Rightarrow> bool \<Rightarrow> tx_output list \<Rightarrow> error + account_map" where
  "getOrMakeOutputs_loop d accountGetter accs checkedCreatePerms [] = Inr accs"
| "getOrMakeOutputs_loop d accountGetter accs checkedCreatePerms (out # outs) =
     (if map_of accs (out_Address out) \<noteq> None then Inl ErrTxDuplicateAddress
      else case accountGetter (out_Address out) of
             Some acc \<Rightarrow>
               getOrMakeOutputs_loop d accountGetter (AList.update (out_Address out) acc accs)
                 checkedCreatePerms outs
           | None \<Rightarrow>
               (if \<not> checkedCreatePerms then
                  (case hasCreateAccountPermission d accountGetter accs of
                     Inl e \<Rightarrow> Inl e
                   | Inr False \<Rightarrow>
                       Inl (Errorf ''at least one input does not have permission to create accounts'')
                   | Inr True \<Rightarrow>
                       getOrMakeOutputs_loop d accountGetter
                         (AList.update (out_Address out) (newOutputAccount (out_Address out)) accs)
                         True outs)
                else
                  getOrMakeOutputs_loop d accountGetter
                    (AList.update (out_Address out) (newOutputAccount (out_Address out)) accs)
                    checkedCreatePerms outs))"

definition getOrMakeOutputs :: "deps \<Rightarrow> (address \<rightharpoonup> account) \<Rightarrow> account_map \<Rightarrow> tx_output list \<Rightarrow> error + account_map" where
  "getOrMakeOutputs d accountGetter accs outs = getOrMakeOutputs_loop d accountGetter accs False outs"

fun validateInputs_loop :: "deps \<Rightarrow> account_map \<Rightarrow> bytes \<Rightarrow> u64 \<Rightarrow> tx_input list \<Rightarrow> error + u64" where
  "validateInputs_loop d accs sb tot [] = Inr tot"
| "validateInputs_loop d accs sb tot (inp # ins) =
     (case map_of accs (in_Address inp) of
        None \<Rightarrow> Inl (Panic ''validateInputs() expects account in accounts'')
      | Some acc \<Rightarrow>
          (case validateInput d acc sb inp of
             Some e \<Rightarrow> Inl e
           | None \<Rightarrow> validateInputs_loop d accs sb (tot + in_Amount inp) ins))"

definition validateInputs :: "deps \<Rightarrow> account_map \<Rightarrow> bytes \<Rightarrow> tx_input list \<Rightarrow> error + u64" where
  "validateInputs d accs sb ins = validateInputs_loop d accs sb 0 ins"

fun validateOutputs_loop :: "deps \<Rightarrow> u64 \<Rightarrow> tx_output list \<Rightarrow> error + u64" where
  "validateOutputs_loop d tot [] = Inr tot"
| "validateOutputs_loop d tot (out # outs) =
     (case outputValidateBasic d out of
        Some e \<Rightarrow> Inl e
      | None \<Rightarrow> validateOutputs_loop d (tot + out_Amount out) outs)"

definition validateOutputs :: "deps \<Rightarrow> tx_output list \<Rightarrow> error + u64" where
  "validateOutputs d outs = validateOutputs_loop d 0 outs"

fun adjustByInputs :: "account_map \<Rightarrow> tx_input list \<Rightarrow> error + account_map" where
  "adjustByInputs accs [] = Inr accs"
| "adjustByInputs accs (inp # ins) =
     (case map_of accs (in_Address inp) of
        None \<Rightarrow> Inl (Panic ''adjustByInputs() expects account in accounts'')
      | Some acc \<Rightarrow>
          if Balance acc < in_Amount inp
            then Inl (Panic ''adjustByInputs() expects sufficient funds'')
          else adjustByInputs
                 (AList.update (in_Address inp)
                    (IncSequence (SubtractFromBalance acc (in_Amount inp))) accs) ins)"

fun adjustByOutputs :: "account_map \<Rightarrow> tx_output list \<Rightarrow> error + account_map" where
  "adjustByOutputs accs [] = Inr accs"
| "adjustByOutputs accs (out # outs) =
     (case map_of accs (out_Address out) of
        None \<Rightarrow> Inl (Panic ''adjustByOutputs() expects account in accounts'')
      | Some acc \<Rightarrow>
          adjustByOutputs (AList.update (out_Address out) (AddToBalance acc (out_Amount out)) accs) outs)"

text \<open>\<^verbatim>\<open>for _, acc := range accounts { exe.blockCache.UpdateAccount(acc) }\<close>\<close>

definition updateAccounts :: "block_cache \<Rightarrow> account_map \<Rightarrow> block_cache" where
  "updateAccounts bc accs = fold (\<lambda>p c. UpdateAccount c (snd p)) accs bc"

section \<open>The dispatcher\<close>

subsection \<open>SendTx\<close>

definition sendEvents :: "tx \<Rightarrow> tx_input list \<Rightarrow> tx_output list \<Rightarrow> event list" where
  "sendEvents t ins outs =
     map (\<lambda>i. Event (AccInput (in_Address i)) t [] None) ins @
     map (\<lambda>out. Event (AccOutput (out_Address out)) t [] None) outs"

text \<open>
  The SendTx case of \<^verbatim>\<open>Execute\<close>.  The local \<^verbatim>\<open>fees\<close> (\<open>inTotal - outTotal\<close> is
  added to it) is never read again and is left out.
\<close>

definition executeSendTx :: "deps \<Rightarrow> executor \<Rightarrow> tx_input list \<Rightarrow> tx_output list \<Rightarrow> error option \<times> executor" where
  "executeSendTx d exe ins outs =
     (case getInputs d (accounts (blockCache exe)) ins of
        Inl e \<Rightarrow> (Some e, exe)
      | Inr (accs, ins1) \<Rightarrow>
     (case hasSendPermission d (accounts (blockCache exe)) accs of
        Inl e \<Rightarrow> (Some e, exe)
      | Inr False \<Rightarrow> (Some (Errorf ''at least one input lacks permission for SendTx''), exe)
      | Inr True \<Rightarrow>
     (case getOrMakeOutputs d (accounts (blockCache exe)) accs outs of
        Inl e \<Rightarrow> (Some e, exe)
      | Inr accs2 \<Rightarrow>
     (case validateInputs d accs2 (signBytes d (chainID exe) (SendTx ins1 outs)) ins1 of
        Inl e \<Rightarrow> (Some e, exe)
      | Inr inTotal \<Rightarrow>
     (case validateOutputs d outs of
        Inl e \<Rightarrow> (Some e, exe)
      | Inr outTotal \<Rightarrow>
          if outTotal > inTotal then (Some ErrTxInsufficientFunds, exe)
          else
     (case adjustByInputs accs2 ins1 of
        Inl e \<Rightarrow> (Some e, exe)
      | Inr accs3 \<Rightarrow>
     (case adjustByOutputs accs3 outs of
        Inl e \<Rightarrow> (Some e, exe)
      | Inr accs4 \<Rightarrow>
          (None, exe\<lparr>blockCache := updateAccounts (blockCache exe) accs4,
                     eventCache := eventCache exe @ sendEvents (SendTx ins1 outs) ins1 outs\<rparr>))))))))"

subsection \<open>CallTx\<close>

text \<open>
  Modelled from the spec: \<open>derive_new_account\<close> increments the caller's sequence,
  derives the callee address from the caller's address and its incoming sequence, and
  gives the new account the global base permissions.  It answers the caller and the
  new account.
\<close>

definition DeriveNewAccount :: "deps \<Rightarrow> account \<Rightarrow> account_permissions \<Rightarrow> account \<times> account" where
  "DeriveNewAccount d creator perms =
     (IncSequence creator,
      \<lparr>Address = newContractAddress d (Address creator) (Sequence creator), PublicKey = None,
       Sequence = 0, Balance = 0, Code = [], Permissions = perms\<rparr>)"

text \<open>The code after the label \<^verbatim>\<open>CALL_COMPLETE\<close>: fire the events, return \<^verbatim>\<open>nil\<close>.\<close>

definition callComplete ::
  "executor \<Rightarrow> block_cache \<Rightarrow> tx \<Rightarrow> tx_input \<Rightarrow> address option \<Rightarrow> bytes \<Rightarrow> error option \<Rightarrow> error option \<times> executor" where
  "callComplete exe bc t inp addr ret err =
     (None, exe\<lparr>blockCache := bc,
                eventCache := eventCache exe @
                  (Event (AccInput (in_Address inp)) t ret err #
                   (case addr of None \<Rightarrow> [] | Some a \<Rightarrow> [Event (AccOutput a) t ret err]))\<rparr>)"

text \<open>
  The scope that runs the VM and syncs the Tx Cache.  The events the VM fired are in the
  event cache before the receipt events of \<^verbatim>\<open>CALL_COMPLETE\<close>.  \<^verbatim>\<open>callee.SetCode(ret)\<close>
  acts on the callee object that was written to the Tx Cache, so the code is set on the
  Tx Cache's account at the callee's address.
\<close>

definition vmRun ::
  "deps \<Rightarrow> executor \<Rightarrow> block_cache \<Rightarrow> tx \<Rightarrow> tx_input \<Rightarrow> address option \<Rightarrow> tx_cache \<Rightarrow> vm_params \<Rightarrow>
   account \<Rightarrow> account \<Rightarrow> bytes \<Rightarrow> bytes \<Rightarrow> u64 \<Rightarrow> u64 \<Rightarrow> error option \<times> executor" where
  "vmRun d exe bc t inp addr txCache params caller callee code dat val gas =
     (case vmCall d (tc_UpdateAccount (tc_UpdateAccount txCache caller) callee) params
             caller callee code dat val gas of
        VMErr ret e evs \<Rightarrow>
          callComplete (exe\<lparr>eventCache := eventCache exe @ evs\<rparr>) bc t inp addr ret (Some e)
      | VMOk ret txCache2 evs \<Rightarrow>
          callComplete (exe\<lparr>eventCache := eventCache exe @ evs\<rparr>)
            (tc_Sync
               (if addr = None then
                  (case tc_accounts txCache2 (Address callee) of
                     None \<Rightarrow> txCache2
                   | Some c \<Rightarrow>
                       txCache2\<lparr>tc_accounts := (tc_accounts txCache2)(Address callee \<mapsto> SetCode c ret)\<rparr>)
                else txCache2)
               bc)
            t inp addr ret None)"

text \<open>The \<^verbatim>\<open>evm.Params\<close> of the call.\<close>

definition vmParams :: "deps \<Rightarrow> executor \<Rightarrow> vm_params" where
  "vmParams d exe =
     \<lparr>BlockHeight = LastBlockHeight (exe_tip exe), BlockHash = LastBlockHash (exe_tip exe),
      BlockTime = LastBlockTime (exe_tip exe), vm_GasLimit = processGasLimit d\<rparr>"

text \<open>
  The part of the branch \<^verbatim>\<open>if exe.runCall\<close> before the VM runs: a call to an address
  that does not exist or holds no code fails with \<^verbatim>\<open>ErrTxInvalidAddress\<close>
  (\<open>CallFailed\<close>, on to \<^verbatim>\<open>CALL_COMPLETE\<close>); otherwise caller, callee and code are ready
  (\<open>CallReady\<close>), the callee derived from the caller for a creation.  A missing global
  permissions account is fatal (\<open>CallFatal\<close>).
\<close>

datatype call_setup = CallFailed error | CallFatal error | CallReady account account bytes

definition callSetup ::
  "deps \<Rightarrow> executor \<Rightarrow> address option \<Rightarrow> bytes \<Rightarrow> account \<Rightarrow> account option \<Rightarrow> call_setup" where
  "callSetup d exe addr dat inAcc outAcc =
     (case addr of
        Some a \<Rightarrow>
          (case outAcc of
             None \<Rightarrow> CallFailed ErrTxInvalidAddress
           | Some out \<Rightarrow>
               if length (Code out) = 0 then CallFailed ErrTxInvalidAddress
               else CallReady inAcc out (Code out))
      | None \<Rightarrow>
          (case accounts (state exe) (globalPermissionsAddress d) of
             None \<Rightarrow> CallFatal (Panic ''Could not get global permission account, but this must exist'')
           | Some g \<Rightarrow>
               (case DeriveNewAccount d inAcc (Permissions g) of
                  (caller, callee) \<Rightarrow> CallReady caller callee dat)))"

text \<open>The branch \<^verbatim>\<open>if exe.runCall\<close>; \<open>bc\<close> is the Block Cache after the fee debit.\<close>

definition runCallBlock ::
  "deps \<Rightarrow> executor \<Rightarrow> block_cache \<Rightarrow> tx \<Rightarrow> tx_input \<Rightarrow> address option \<Rightarrow> u64 \<Rightarrow> bytes \<Rightarrow>
   account \<Rightarrow> account option \<Rightarrow> u64 \<Rightarrow> error option \<times> executor" where
  "runCallBlock d exe bc t inp addr gasLimit dat inAcc outAcc val =
     (case callSetup d exe addr dat inAcc outAcc of
        CallFailed e \<Rightarrow> callComplete exe bc t inp addr [] (Some e)
      | CallFatal e \<Rightarrow> (Some e, exe\<lparr>blockCache := bc\<rparr>)
      | CallReady caller callee code \<Rightarrow>
          vmRun d exe bc t inp addr (NewTxCache bc) (vmParams d exe) caller callee code dat val
            gasLimit)"

definition executeCallTx ::
  "deps \<Rightarrow> executor \<Rightarrow> tx_input \<Rightarrow> address option \<Rightarrow> u64 \<Rightarrow> u64 \<Rightarrow> bytes \<Rightarrow> error option \<times> executor" where
  "executeCallTx d exe inp addr gasLimit fee dat =
     (case accounts (blockCache exe) (in_Address inp) of
        None \<Rightarrow> (Some ErrTxInvalidAddress, exe)
      | Some inAcc0 \<Rightarrow>
     (case (if addr = None
              then hasCreateContractPermission d (accounts (blockCache exe)) inAcc0
            else hasCallPermission d (accounts (blockCache exe)) inAcc0) of
        Inl e \<Rightarrow> (Some e, exe)
      | Inr False \<Rightarrow>
          (Some (Errorf (if addr = None then ''account does not have CreateContract permission''
                         else ''account does not have Call permission'')), exe)
      | Inr True \<Rightarrow>
     (case checkInputPubKey d inAcc0 inp of
        Inl e \<Rightarrow> (Some e, exe)
      | Inr (inAcc1, inp1) \<Rightarrow>
     (case validateInput d inAcc1
             (signBytes d (chainID exe) (CallTx inp1 addr gasLimit fee dat)) inp1 of
        Some e \<Rightarrow> (Some e, exe)
      | None \<Rightarrow>
          if in_Amount inp1 < fee then (Some ErrTxInsufficientFunds, exe)
          else
     (case (case addr of
              None \<Rightarrow> Inr None
            | Some a \<Rightarrow>
                if registeredNativeContract d a
                  then Inl (Errorf ''attempt to call a native contract, but native contracts cannot be called using CallTx'')
                else Inr (accounts (blockCache exe) a)) of
        Inl e \<Rightarrow> (Some e, exe)
      | Inr outAcc \<Rightarrow>
          (let val = in_Amount inp1 - fee;
               inAcc2 = SubtractFromBalance (IncSequence inAcc1) fee;
               bc1 = UpdateAccount (blockCache exe) inAcc2
           in if runCall exe
                then runCallBlock d exe bc1 (CallTx inp1 addr gasLimit fee dat) inp1 addr gasLimit dat
                       inAcc2 outAcc val
              else
                (None, exe\<lparr>blockCache :=
                   UpdateAccount bc1
                     (if addr = None then IncSequence (SubtractFromBalance inAcc2 val)
                      else SubtractFromBalance inAcc2 val)\<rparr>)))))))"

subsection \<open>NameTx\<close>

text \<open>
  The lookup of the entry and the three ways on: delete, reclaim an expired entry,
  extend one's own.  \<open>h\<close> is \<^verbatim>\<open>lastBlockHeight\<close>.  It answers the Block Cache after
  the registry write.
\<close>

definition nameRegUpdate ::
  "deps \<Rightarrow> block_cache \<Rightarrow> tx_input \<Rightarrow> string \<Rightarrow> string \<Rightarrow> u64 \<Rightarrow> u64 \<Rightarrow> u64 \<Rightarrow> u64 \<Rightarrow> error + block_cache" where
  "nameRegUpdate d bc inp name dat val costPerBlock expiresIn h =
     (case names bc name of
        Some entry \<Rightarrow>
          if Expires entry > h \<and> Owner entry \<noteq> in_Address inp
            then Inl (Errorf ''permission denied: sender is trying to update a name for which they are not an owner'')
          else if val = 0 \<and> length dat = 0 then Inr (RemoveNameRegEntry bc (Name entry))
          else if \<not> Expires entry > h then
            (if expiresIn < minNameRegistrationPeriod d
               then Inl (Errorf ''Names must be registered for at least MinNameRegistrationPeriod blocks'')
             else Inr (UpdateNameRegEntry bc
                         (entry\<lparr>Expires := h + expiresIn, Owner := in_Address inp, Data := dat\<rparr>)))
          else
            (let oldCredit = (Expires entry - h) * nameBaseCost d (Name entry) (Data entry);
                 credit = oldCredit + val;
                 expiresIn2 = credit div costPerBlock
             in if expiresIn2 < minNameRegistrationPeriod d
                  then Inl (Errorf ''names must be registered for at least MinNameRegistrationPeriod blocks'')
                else Inr (UpdateNameRegEntry bc (entry\<lparr>Expires := h + expiresIn2, Data := dat\<rparr>)))
      | None \<Rightarrow>
          if expiresIn < minNameRegistrationPeriod d
            then Inl (Errorf ''Names must be registered for at least MinNameRegistrationPeriod blocks'')
          else Inr (UpdateNameRegEntry bc
                      \<lparr>Name = name, Owner = in_Address inp, Data = dat, Expires = h + expiresIn\<rparr>))"

text \<open>
  The NameTx case.  Go's integer division panics on a zero divisor; the model makes the
  panic a result.
\<close>

definition executeNameTx ::
  "deps \<Rightarrow> executor \<Rightarrow> tx_input \<Rightarrow> string \<Rightarrow> string \<Rightarrow> u64 \<Rightarrow> error option \<times> executor" where
  "executeNameTx d exe inp name dat fee =
     (case accounts (blockCache exe) (in_Address inp) of
        None \<Rightarrow> (Some ErrTxInvalidAddress, exe)
      | Some inAcc0 \<Rightarrow>
     (case hasNamePermission d (accounts (blockCache exe)) inAcc0 of
        Inl e \<Rightarrow> (Some e, exe)
      | Inr False \<Rightarrow> (Some (Errorf ''account does not have Name permission''), exe)
      | Inr True \<Rightarrow>
     (case checkInputPubKey d inAcc0 inp of
        Inl e \<Rightarrow> (Some e, exe)
      | Inr (inAcc1, inp1) \<Rightarrow>
     (case validateInput d inAcc1 (signBytes d (chainID exe) (NameTx inp1 name dat fee)) inp1 of
        Some e \<Rightarrow> (Some e, exe)
      | None \<Rightarrow>
          if in_Amount inp1 < fee then (Some ErrTxInsufficientFunds, exe)
          else
     (case validateStrings d name dat of
        Some e \<Rightarrow> (Some e, exe)
      | None \<Rightarrow>
          (let val = in_Amount inp1 - fee;
               costPerBlock = nameCostPerBlock d (nameBaseCost d name dat)
           in if costPerBlock = 0
                then (Some (Panic ''runtime error: integer divide by zero''), exe)
              else
                (case nameRegUpdate d (blockCache exe) inp1 name dat val costPerBlock
                        (val div costPerBlock) (LastBlockHeight (exe_tip exe)) of
                   Inl e \<Rightarrow> (Some e, exe)
                 | Inr bc1 \<Rightarrow>
                     (None,
                      exe\<lparr>blockCache :=
                            UpdateAccount bc1 (SubtractFromBalance (IncSequence inAcc1) val),
                          eventCache := eventCache exe @
                            [Event (AccInput (in_Address inp1)) (NameTx inp1 name dat fee) [] None,
                             Event (NameReg name) (NameTx inp1 name dat fee) [] None]\<rparr>))))))))"

subsection \<open>PermissionsTx\<close>

definition mutatePermissions ::
  "(address \<rightharpoonup> account) \<Rightarrow> address \<Rightarrow> (account_permissions \<Rightarrow> error + account_permissions) \<Rightarrow> error + account" where
  "mutatePermissions stateReader a mutator =
     (case stateReader a of
        None \<Rightarrow> Inl (Errorf ''could not get account in order to alter permissions'')
      | Some acc \<Rightarrow>
          (case mutator (Permissions acc) of
             Inl e \<Rightarrow> Inl e
           | Inr perms \<Rightarrow> Inr (acc\<lparr>Permissions := perms\<rparr>)))"

text \<open>The \<^verbatim>\<open>switch tx.PermArgs.PermFlag\<close>: the account whose permissions were mutated.\<close>

definition applyPermArgs :: "deps \<Rightarrow> (address \<rightharpoonup> account) \<Rightarrow> perm_args \<Rightarrow> error + account" where
  "applyPermArgs d stateReader args =
     (if PermFlag args = permission_HasBase
        then Inl (Errorf ''HasBase is for contracts, not humans. Just look at the blockchain'')
      else if PermFlag args = permission_SetBase
        then mutatePermissions stateReader (pa_Address args)
               (\<lambda>perms. Inr (perms\<lparr>Base := base_Set (Base perms) (pa_Permission args) (pa_Value args)\<rparr>))
      else if PermFlag args = permission_UnsetBase
        then mutatePermissions stateReader (pa_Address args)
               (\<lambda>perms. Inr (perms\<lparr>Base := base_Unset (Base perms) (pa_Permission args)\<rparr>))
      else if PermFlag args = permission_SetGlobal
        then mutatePermissions stateReader (globalPermissionsAddress d)
               (\<lambda>perms. Inr (perms\<lparr>Base := base_Set (Base perms) (pa_Permission args) (pa_Value args)\<rparr>))
      else if PermFlag args = permission_HasRole
        then Inl (Errorf ''HasRole is for contracts, not humans. Just look at the blockchain'')
      else if PermFlag args = permission_AddRole
        then mutatePermissions stateReader (pa_Address args)
               (\<lambda>perms. case AddRole perms (pa_Role args) of
                           (True, perms2) \<Rightarrow> Inr perms2
                         | (False, _) \<Rightarrow> Inl (Errorf ''role already exists for account''))
      else if PermFlag args = permission_RemoveRole
        then mutatePermissions stateReader (pa_Address args)
               (\<lambda>perms. case RmRole perms (pa_Role args) of
                           (True, perms2) \<Rightarrow> Inr perms2
                         | (False, _) \<Rightarrow> Inl (Errorf ''role does not exist for account''))
      else Inl (Panic ''invalid permission function''))"

definition executePermissionsTx :: "deps \<Rightarrow> executor \<Rightarrow> tx_input \<Rightarrow> perm_args \<Rightarrow> error option \<times> executor" where
  "executePermissionsTx d exe inp args =
     (case accounts (blockCache exe) (in_Address inp) of
        None \<Rightarrow> (Some ErrTxInvalidAddress, exe)
      | Some inAcc0 \<Rightarrow>
     (case HasPermission d (Some (accounts (blockCache exe))) inAcc0 (PermFlag args) of
        Inl e \<Rightarrow> (Some e, exe)
      | Inr False \<Rightarrow> (Some (Errorf ''account does not have moderator permission''), exe)
      | Inr True \<Rightarrow>
     (case checkInputPubKey d inAcc0 inp of
        Inl e \<Rightarrow> (Some e, exe)
      | Inr (inAcc1, inp1) \<Rightarrow>
     (case validateInput d inAcc1 (signBytes d (chainID exe) (PermissionsTx inp1 args)) inp1 of
        Some e \<Rightarrow> (Some e, exe)
      | None \<Rightarrow>
     (case applyPermArgs d (accounts (blockCache exe)) args of
        Inl e \<Rightarrow> (Some e, exe)
      | Inr permAcc \<Rightarrow>
          (None,
           exe\<lparr>blockCache :=
                 UpdateAccount
                   (UpdateAccount (blockCache exe)
                      (SubtractFromBalance (IncSequence inAcc1) (in_Amount inp1)))
                   permAcc,
               eventCache := eventCache exe @
                 [Event (AccInput (in_Address inp1)) (PermissionsTx inp1 args) [] None,
                  Event (PermissionsEvent (PermFlag args)) (PermissionsTx inp1 args) [] None]\<rparr>))))))"

subsection \<open>Execute\<close>

text \<open>
  \<^verbatim>\<open>Execute\<close> answers the error (\<open>None\<close> for \<^verbatim>\<open>nil\<close>) and the executor afterwards.
\<close>

fun Execute :: "deps \<Rightarrow> executor \<Rightarrow> tx \<Rightarrow> error option \<times> executor" where
  "Execute d exe (SendTx ins outs) = executeSendTx d exe ins outs"
| "Execute d exe (CallTx inp addr gasLimit fee dat) = executeCallTx d exe inp addr gasLimit fee dat"
| "Execute d exe (NameTx inp name dat fee) = executeNameTx d exe inp name dat fee"
| "Execute d exe (PermissionsTx inp args) = executePermissionsTx d exe inp args"

text \<open>
  \<^verbatim>\<open>NewBatchChecker\<close> is \<open>newExecutor False\<close> and \<^verbatim>\<open>NewBatchCommitter\<close> is
  \<open>newExecutor True\<close>: they differ in \<^verbatim>\<open>runCall\<close> (and in the event sink, which only
  \<^verbatim>\<open>Commit\<close> reaches).
\<close>

definition newExecutor :: "bool \<Rightarrow> block_cache \<Rightarrow> string \<Rightarrow> tip \<Rightarrow> executor" where
  "newExecutor rc st cid tp =
     \<lparr>chainID = cid, exe_tip = tp, runCall = rc, state = st, blockCache = NewBlockCache st,
      eventCache = []\<rparr>"

definition NewBatchChecker :: "block_cache \<Rightarrow> string \<Rightarrow> tip \<Rightarrow> executor" where
  "NewBatchChecker st cid tp = newExecutor False st cid tp"

definition NewBatchCommitter :: "block_cache \<Rightarrow> string \<Rightarrow> tip \<Rightarrow> executor" where
  "NewBatchCommitter st cid tp = newExecutor True st cid tp"

section \<open>Predicates of the statements\<close>

text \<open>
  \<open>debited exe exe' a n amt\<close>: the account at address \<open>a\<close> exists before and after,
  its sequence has advanced by \<open>n\<close> and \<open>amt\<close> has been subtracted from its balance.
\<close>

definition debited :: "executor \<Rightarrow> executor \<Rightarrow> address \<Rightarrow> u64 \<Rightarrow> u64 \<Rightarrow> bool" where
  "debited exe exe' a n amt =
     (case (accounts (blockCache exe) a, accounts (blockCache exe') a) of
        (Some acc0, Some acc') \<Rightarrow>
          Sequence acc' = Sequence acc0 + n \<and> Balance acc' = Balance acc0 - amt
      | _ \<Rightarrow> False)"

text \<open>\<open>advanced exe exe' a n\<close>: the sequence of the account at \<open>a\<close> has advanced by \<open>n\<close>.\<close>

definition advanced :: "executor \<Rightarrow> executor \<Rightarrow> address \<Rightarrow> u64 \<Rightarrow> bool" where
  "advanced exe exe' a n =
     (case (accounts (blockCache exe) a, accounts (blockCache exe') a) of
        (Some acc0, Some acc') \<Rightarrow> Sequence acc' = Sequence acc0 + n
      | _ \<Rightarrow> False)"

text \<open>The sums of the input and of the output amounts of a SendTx, as numbers.\<close>

definition inputTotal :: "tx_input list \<Rightarrow> nat" where
  "inputTotal ins = sum_list (map (\<lambda>i. unat (in_Amount i)) ins)"

definition outputTotal :: "tx_output list \<Rightarrow> nat" where
  "outputTotal outs = sum_list (map (\<lambda>out. unat (out_Amount out)) outs)"

text \<open>The address whose permissions a PermissionsTx mutates.\<close>

definition permTarget :: "deps \<Rightarrow> perm_args \<Rightarrow> address" where
  "permTarget d args =
     (if PermFlag args = permission_SetGlobal then globalPermissionsAddress d else pa_Address args)"

section \<open>Sample collaborators and scenarios\<close>

text \<open>
  A small instance of the collaborators, for running the model on concrete
  transactions: an address is derived from the first byte of a key, a signature is the
  key followed by the sign bytes, basic validation wants a non-zero address and a
  non-zero amount, the base cost of a name is \<open>len(name) + len(data) + 32\<close> with both
  multipliers 1, and the VM moves the value from caller to callee, fires one event and
  returns the code it ran, failing on code that starts with the byte \<open>0xFE\<close>.
\<close>

definition sample_vmCall ::
  "tx_cache \<Rightarrow> vm_params \<Rightarrow> account \<Rightarrow> account \<Rightarrow> bytes \<Rightarrow> bytes \<Rightarrow> u64 \<Rightarrow> u64 \<Rightarrow> vm_result" where
  "sample_vmCall tc params caller callee code dat val gas =
     (if Balance caller < val then VMErr [] ErrTxInsufficientFunds [VMEvent ''Acc/Call'' dat]
      else if take 1 code = [254] then VMErr [] (Errorf ''invalid opcode'') [VMEvent ''Acc/Call'' dat]
      else if Address callee = Address caller then VMOk code tc [VMEvent ''Acc/Call'' dat]
      else VMOk code
             (tc_UpdateAccount (tc_UpdateAccount tc (SubtractFromBalance caller val))
                (AddToBalance callee val))
             [VMEvent ''Acc/Call'' dat])"

definition sample_deps :: deps where
  "sample_deps =
     \<lparr>pubKeyAddress = (\<lambda>pk. case pk of [] \<Rightarrow> 0 | b # _ \<Rightarrow> ucast b),
      verifyBytes = (\<lambda>pk sb sg. case pk of None \<Rightarrow> False | Some k \<Rightarrow> sg = k @ sb),
      signBytes = (\<lambda>cid t. [of_nat (length cid)]),
      inputValidateBasic =
        (\<lambda>i. if in_Address i = 0 then Some ErrTxInvalidAddress
              else if in_Amount i = 0 then Some ErrTxInvalidAmount else None),
      outputValidateBasic =
        (\<lambda>out. if out_Address out = 0 then Some ErrTxInvalidAddress
                else if out_Amount out = 0 then Some ErrTxInvalidAmount else None),
      validateStrings =
        (\<lambda>n dt. if n = [] \<or> 64 < length n \<or> 65536 < length dt then Some ErrTxInvalidString else None),
      nameBaseCost = (\<lambda>n dt. of_nat (length n + length dt + 32)),
      nameCostPerBlock = (\<lambda>b. b),
      minNameRegistrationPeriod = 5,
      registeredNativeContract = (\<lambda>a. False),
      newContractAddress = (\<lambda>a s. a + 4096 + ucast s),
      globalPermissionsAddress = 0,
      processGasLimit = 1000000,
      vmCall = sample_vmCall\<rparr>"

text \<open>
  The global permissions account grants Send, Call, CreateContract, CreateAccount and
  Name; account 1 (key \<open>[1, 7]\<close>) holds 10000 and may SetBase, account 2 (key
  \<open>[2, 9]\<close>, not yet known to the chain) holds 500.
\<close>

definition sample_global :: account where
  "sample_global =
     \<lparr>Address = 0, PublicKey = None, Sequence = 0, Balance = 0, Code = [],
      Permissions = \<lparr>Base = \<lparr>Perms = 94, SetBit = 16383\<rparr>, Roles = []\<rparr>\<rparr>"

definition sample_acc1 :: account where
  "sample_acc1 =
     \<lparr>Address = 1, PublicKey = Some [1, 7], Sequence = 0, Balance = 10000, Code = [],
      Permissions = \<lparr>Base = \<lparr>Perms = 256, SetBit = 256\<rparr>, Roles = []\<rparr>\<rparr>"

definition sample_acc2 :: account where
  "sample_acc2 =
     \<lparr>Address = 2, PublicKey = None, Sequence = 3, Balance = 500, Code = [],
      Permissions = ZeroAccountPermissions\<rparr>"

definition sample_accounts :: "address \<rightharpoonup> account" where
  "sample_accounts = [0 \<mapsto> sample_global, 1 \<mapsto> sample_acc1, 2 \<mapsto> sample_acc2]"

definition sample_cache :: block_cache where
  "sample_cache = \<lparr>accounts = sample_accounts, storage = (\<lambda>k. 0), names = Map.empty\<rparr>"

definition sample_tip :: tip where
  "sample_tip = \<lparr>LastBlockHeight = 100, LastBlockHash = [], LastBlockTime = 0\<rparr>"

definition sample_exe :: "bool \<Rightarrow> executor" where
  "sample_exe rc = newExecutor rc sample_cache ''chain'' sample_tip"

text \<open>An input of account 1 with the given amount, signed for chain \<open>''chain''\<close>.\<close>

definition sample_input1 :: "u64 \<Rightarrow> tx_input" where
  "sample_input1 amt =
     \<lparr>in_Address = 1, in_Amount = amt, in_Sequence = 1, in_Signature = [1, 7, 5], in_PubKey = None\<rparr>"

text \<open>An input of account 2, which has no public key yet, carrying its key.\<close>

definition sample_input2 :: "u64 \<Rightarrow> tx_input" where
  "sample_input2 amt =
     \<lparr>in_Address = 2, in_Amount = amt, in_Sequence = 4, in_Signature = [2, 9, 5],
      in_PubKey = Some [2, 9]\<rparr>"

text \<open>Scenario S1: account 1 sends 600 to account 2.\<close>

definition sample_sendTx :: tx where
  "sample_sendTx = SendTx [sample_input1 600] [\<lparr>out_Address = 2, out_Amount = 600\<rparr>]"

text \<open>A SendTx whose outputs exceed its inputs.\<close>

definition sample_shortTx :: tx where
  "sample_shortTx = SendTx [sample_input1 600] [\<lparr>out_Address = 2, out_Amount = 700\<rparr>]"

text \<open>
  A SendTx with one input of 1 and two outputs of \<open>2^63\<close> each, to account 2 and to
  the unknown address 3.
\<close>

definition sample_overflowTx :: tx where
  "sample_overflowTx =
     SendTx [sample_input1 1]
       [\<lparr>out_Address = 2, out_Amount = 9223372036854775808\<rparr>,
        \<lparr>out_Address = 3, out_Amount = 9223372036854775808\<rparr>]"

text \<open>Scenario S3: account 1 creates a contract, amount 2000, fee 1000.\<close>

definition sample_createTx :: tx where
  "sample_createTx = CallTx (sample_input1 2000) None 1000 1000 [96, 1]"

text \<open>The same creation with init code that the VM rejects.\<close>

definition sample_failingTx :: tx where
  "sample_failingTx = CallTx (sample_input1 2000) None 1000 1000 [254]"

text \<open>
  Caller and callee of the two creations as the VM receives them: account 1 after the
  fee debit and the derivation of the new account, and the new account at the address
  derived from account 1 at sequence 1.
\<close>

definition sample_caller :: account where
  "sample_caller = sample_acc1\<lparr>Sequence := 2, Balance := 9000\<rparr>"

definition sample_callee :: account where
  "sample_callee =
     \<lparr>Address = 4098, PublicKey = None, Sequence = 0, Balance = 0, Code = [],
      Permissions = Permissions sample_global\<rparr>"

text \<open>
  Account 1 registers \<open>''foo''\<close> with data \<open>''bar''\<close> (base cost 38), amount 1190 and
  fee 1000: the value 190 pays for 5 blocks.
\<close>

definition sample_nameTx :: tx where
  "sample_nameTx = NameTx (sample_input1 1190) ''foo'' ''bar'' 1000"

text \<open>Scenario S6: account 1 sets \<open>Call\<close> on account 2.\<close>

definition sample_permTx :: tx where
  "sample_permTx =
     PermissionsTx (sample_input1 10)
       \<lparr>PermFlag = permission_SetBase, pa_Address = 2, pa_Permission = permission_Call,
        pa_Value = True, pa_Role = []\<rparr>"

text \<open>An executor whose name registry holds one entry for \<open>''foo''\<close>.\<close>

definition sample_exe_named :: "name_reg_entry \<Rightarrow> executor" where
  "sample_exe_named entry =
     (sample_exe True)\<lparr>blockCache := sample_cache\<lparr>names := [''foo'' \<mapsto> entry]\<rparr>\<rparr>"

text \<open>
  The entry as account 1 registers it at height 100 with value 380 at a cost of 38 per
  block: ten blocks.
\<close>

definition sample_entry :: name_reg_entry where
  "sample_entry = \<lparr>Name = ''foo'', Owner = 1, Data = ''bar'', Expires = 110\<rparr>"

text \<open>An entry of account 2 that expired at height 50.\<close>

definition sample_expired :: name_reg_entry where
  "sample_expired = \<lparr>Name = ''foo'', Owner = 2, Data = ''bar'', Expires = 50\<rparr>"

text \<open>Account 1 extends \<open>''foo''\<close> with value 0, and deletes it with value 0 and no data.\<close>

definition sample_extendTx :: tx where
  "sample_extendTx = NameTx (sample_input1 1000) ''foo'' ''bar'' 1000"

definition sample_deleteTx :: tx where
  "sample_deleteTx = NameTx (sample_input1 1000) ''foo'' [] 1000"

section \<open>Evaluation\<close>

text \<open>The equations that unfold the model and the sample scenario on concrete input.\<close>

lemmas model_defs =
  executeSendTx_def executeCallTx_def executeNameTx_def executePermissionsTx_def
  getInputs_def getOrMakeOutputs_def validateInputs_def validateOutputs_def
  checkInputPubKey_def validateInput_def hasSendPermission_def hasCreateAccountPermission_def
  hasNamePermission_def hasCallPermission_def hasCreateContractPermission_def
  base_Get_def base_Set_def base_Unset_def AddRole_def RmRole_def
  IncSequence_def SubtractFromBalance_def AddToBalance_def SetPublicKey_def SetCode_def
  updateAccounts_def UpdateAccount_def UpdateNameRegEntry_def RemoveNameRegEntry_def
  NewTxCache_def tc_UpdateAccount_def tc_Sync_def sendEvents_def newOutputAccount_def
  ZeroAccountPermissions_def DeriveNewAccount_def callComplete_def vmRun_def vmParams_def
  callSetup_def runCallBlock_def
  nameRegUpdate_def mutatePermissions_def applyPermArgs_def newExecutor_def NewBlockCache_def
  permission_Root_def permission_Send_def permission_Call_def permission_CreateContract_def
  permission_CreateAccount_def permission_Bond_def permission_Name_def permission_HasBase_def
  permission_SetBase_def permission_UnsetBase_def permission_SetGlobal_def permission_HasRole_def
  permission_AddRole_def permission_RemoveRole_def AllPermFlags_def Let_def

lemmas sample_defs =
  sample_vmCall_def sample_deps_def sample_global_def sample_acc1_def sample_acc2_def
  sample_accounts_def sample_cache_def sample_tip_def sample_exe_def sample_input1_def

section \<open>Properties of the validation kernel and of the SendTx loops\<close>

lemma checkInputPubKey_Inr:
  assumes "checkInputPubKey d acc inp = Inr (acc', inp')"
  shows "Address acc' = Address acc \<and> Sequence acc' = Sequence acc \<and> Balance acc' = Balance acc
    \<and> in_Address inp' = in_Address inp \<and> in_Amount inp' = in_Amount inp"
  using assms
  by (auto simp: checkInputPubKey_def SetPublicKey_def split: option.splits if_splits)

lemma getInputs_loop_other:
  "getInputs_loop d g accs0 ins = Inr (accs, ins1) \<Longrightarrow> k \<notin> in_Address ` set ins \<Longrightarrow>
   map_of accs k = map_of accs0 k"
proof (induction ins arbitrary: accs0 accs ins1)
  case Nil
  then show ?case by simp
next
  case (Cons inp ins)
  then show ?case
    by (auto simp: update_conv' split: if_splits option.splits sum.splits prod.splits)
qed

lemma getInputs_loop_distinct:
  "getInputs_loop d g accs0 ins = Inr (accs, ins1) \<Longrightarrow> distinct (map fst accs0) \<Longrightarrow>
   distinct (map fst accs)"
proof (induction ins arbitrary: accs0 accs ins1)
  case Nil
  then show ?case by simp
next
  case (Cons inp ins)
  then show ?case
    by (auto simp: distinct_update split: if_splits option.splits sum.splits prod.splits)
qed

lemma getInputs_loop_fresh:
  "getInputs_loop d g accs0 ins = Inr (accs, ins1) \<Longrightarrow>
   distinct (map in_Address ins) \<and> (\<forall>inp \<in> set ins. map_of accs0 (in_Address inp) = None)"
proof (induction ins arbitrary: accs0 accs ins1)
  case Nil
  then show ?case by simp
next
  case (Cons inp ins)
  from Cons.prems obtain acc' accs' ins' where
    a: "map_of accs0 (in_Address inp) = None" and
    r: "getInputs_loop d g (AList.update (in_Address inp) acc' accs0) ins = Inr (accs', ins')"
    by (auto split: if_splits option.splits sum.splits prod.splits)
  from Cons.IH[OF r] have d: "distinct (map in_Address ins)"
    and f: "\<forall>i \<in> set ins. map_of (AList.update (in_Address inp) acc' accs0) (in_Address i) = None"
    by auto
  from f have "\<forall>i \<in> set ins. in_Address i \<noteq> in_Address inp \<and> map_of accs0 (in_Address i) = None"
    by (auto simp: update_conv' split: if_splits)
  with a d show ?case by auto
qed

lemma getInputs_loop_inputs:
  "getInputs_loop d g accs0 ins = Inr (accs, ins1) \<Longrightarrow> inp \<in> set ins \<Longrightarrow>
   \<exists>acc0 acc1. g (in_Address inp) = Some acc0 \<and> map_of accs (in_Address inp) = Some acc1 \<and>
     Address acc1 = Address acc0 \<and> Sequence acc1 = Sequence acc0 \<and> Balance acc1 = Balance acc0"
proof (induction ins arbitrary: accs0 accs ins1)
  case Nil
  then show ?case by simp
next
  case (Cons i ins)
  from Cons.prems(1) obtain acc acc' i' ins' where
    g: "g (in_Address i) = Some acc" and
    c: "checkInputPubKey d acc i = Inr (acc', i')" and
    r: "getInputs_loop d g (AList.update (in_Address i) acc' accs0) ins = Inr (accs, ins')"
    by (auto split: if_splits option.splits sum.splits prod.splits)
  show ?case
  proof (cases "inp \<in> set ins")
    case True
    from Cons.IH[OF r True] show ?thesis .
  next
    case False
    with Cons.prems(2) have e: "inp = i" by simp
    from getInputs_loop_fresh[OF r] have "in_Address i \<notin> in_Address ` set ins"
      by (auto simp: update_conv' split: if_splits)
    from getInputs_loop_other[OF r this] have "map_of accs (in_Address i) = Some acc'"
      by (simp add: update_conv')
    with g checkInputPubKey_Inr[OF c] e show ?thesis by auto
  qed
qed

lemma getInputs_loop_same:
  "getInputs_loop d g accs0 ins = Inr (accs, ins1) \<Longrightarrow>
   map (\<lambda>i. (in_Address i, in_Amount i)) ins1 = map (\<lambda>i. (in_Address i, in_Amount i)) ins"
proof (induction ins arbitrary: accs0 accs ins1)
  case Nil
  then show ?case by simp
next
  case (Cons i ins)
  from Cons.prems(1) obtain acc acc' i' ins' where
    c: "checkInputPubKey d acc i = Inr (acc', i')" and
    r: "getInputs_loop d g (AList.update (in_Address i) acc' accs0) ins = Inr (accs, ins')" and
    e: "ins1 = i' # ins'"
    by (auto split: if_splits option.splits sum.splits prod.splits)
  from Cons.IH[OF r] checkInputPubKey_Inr[OF c] e show ?case by simp
qed


lemma keyed_upd: "keyed m \<Longrightarrow> Address acc = k \<Longrightarrow> keyed (m(k \<mapsto> acc))"
  by (simp add: keyed_def)

lemma keyedD: "keyed m \<Longrightarrow> m k = Some acc \<Longrightarrow> Address acc = k"
  by (simp add: keyed_def)

lemma getInputs_loop_keyed:
  "getInputs_loop d g accs0 ins = Inr (accs, ins1) \<Longrightarrow> keyed g \<Longrightarrow> keyed (map_of accs0) \<Longrightarrow>
   keyed (map_of accs)"
proof (induction ins arbitrary: accs0 accs ins1)
  case Nil
  then show ?case by simp
next
  case (Cons i ins)
  from Cons.prems(1) obtain acc acc' i' ins' where
    g: "g (in_Address i) = Some acc" and
    c: "checkInputPubKey d acc i = Inr (acc', i')" and
    r: "getInputs_loop d g (AList.update (in_Address i) acc' accs0) ins = Inr (accs, ins')"
    by (auto split: if_splits option.splits sum.splits prod.splits)
  from keyedD[OF Cons.prems(2) g] checkInputPubKey_Inr[OF c]
  have "Address acc' = in_Address i" by simp
  then have "keyed (map_of (AList.update (in_Address i) acc' accs0))"
    using Cons.prems(3) by (simp add: update_conv' keyed_upd)
  from Cons.IH[OF r Cons.prems(2) this] show ?case .
qed

lemma newOutputAccount_Address [simp]: "Address (newOutputAccount a) = a"
  by (simp add: newOutputAccount_def)

lemma getOrMakeOutputs_loop_other:
  "getOrMakeOutputs_loop d g accs0 chk outs = Inr accs \<Longrightarrow> k \<notin> out_Address ` set outs \<Longrightarrow>
   map_of accs k = map_of accs0 k"
proof (induction outs arbitrary: accs0 chk)
  case Nil
  then show ?case by simp
next
  case (Cons out outs)
  then show ?case
    by (auto simp: update_conv' split: if_splits option.splits sum.splits bool.splits)
qed

lemma getOrMakeOutputs_loop_distinct:
  "getOrMakeOutputs_loop d g accs0 chk outs = Inr accs \<Longrightarrow> distinct (map fst accs0) \<Longrightarrow>
   distinct (map fst accs)"
proof (induction outs arbitrary: accs0 chk)
  case Nil
  then show ?case by simp
next
  case (Cons out outs)
  then show ?case
    by (auto simp: distinct_update split: if_splits option.splits sum.splits bool.splits)
qed

lemma getOrMakeOutputs_loop_keyed:
  "getOrMakeOutputs_loop d g accs0 chk outs = Inr accs \<Longrightarrow> keyed g \<Longrightarrow> keyed (map_of accs0) \<Longrightarrow>
   keyed (map_of accs)"
proof (induction outs arbitrary: accs0 chk)
  case Nil
  then show ?case by simp
next
  case (Cons out outs)
  then show ?case
    by (auto simp: update_conv' keyed_upd keyedD split: if_splits option.splits sum.splits bool.splits)
qed

lemma getOrMakeOutputs_loop_fresh:
  "getOrMakeOutputs_loop d g accs0 chk outs = Inr accs \<Longrightarrow>
   distinct (map out_Address outs) \<and> (\<forall>out \<in> set outs. map_of accs0 (out_Address out) = None)"
proof (induction outs arbitrary: accs0 chk)
  case Nil
  then show ?case by simp
next
  case (Cons out outs)
  from Cons.prems obtain acc' chk' where
    a: "map_of accs0 (out_Address out) = None" and
    r: "getOrMakeOutputs_loop d g (AList.update (out_Address out) acc' accs0) chk' outs = Inr accs"
    by (auto split: if_splits option.splits sum.splits bool.splits)
  from Cons.IH[OF r] have d: "distinct (map out_Address outs)"
    and f: "\<forall>i \<in> set outs. map_of (AList.update (out_Address out) acc' accs0) (out_Address i) = None"
    by auto
  from f have "\<forall>i \<in> set outs. out_Address i \<noteq> out_Address out \<and> map_of accs0 (out_Address i) = None"
    by (auto simp: update_conv' split: if_splits)
  with a d show ?case by auto
qed

lemma getOrMakeOutputs_loop_outputs:
  "getOrMakeOutputs_loop d g accs0 chk outs = Inr accs \<Longrightarrow> out \<in> set outs \<Longrightarrow>
   map_of accs (out_Address out) =
     Some (case g (out_Address out) of Some a \<Rightarrow> a | None \<Rightarrow> newOutputAccount (out_Address out))"
proof (induction outs arbitrary: accs0 chk)
  case Nil
  then show ?case by simp
next
  case (Cons o1 outs)
  from Cons.prems(1) obtain chk' where
    r: "getOrMakeOutputs_loop d g
          (AList.update (out_Address o1)
             (case g (out_Address o1) of Some a \<Rightarrow> a | None \<Rightarrow> newOutputAccount (out_Address o1)) accs0)
          chk' outs = Inr accs"
    by (auto split: if_splits option.splits sum.splits bool.splits)
  show ?case
  proof (cases "out \<in> set outs")
    case True
    from Cons.IH[OF r True] show ?thesis .
  next
    case False
    with Cons.prems(2) have e: "out = o1" by simp
    from getOrMakeOutputs_loop_fresh[OF r] have "out_Address o1 \<notin> out_Address ` set outs"
      by (auto simp: update_conv' split: if_splits)
    from getOrMakeOutputs_loop_other[OF r this] show ?thesis
      unfolding e by (simp add: update_conv')
  qed
qed

lemma adjustByInputs_other:
  "adjustByInputs accs ins = Inr accs' \<Longrightarrow> k \<notin> in_Address ` set ins \<Longrightarrow> map_of accs' k = map_of accs k"
proof (induction ins arbitrary: accs)
  case Nil
  then show ?case by simp
next
  case (Cons inp ins)
  then show ?case
    by (auto simp: update_conv' split: if_splits option.splits)
qed

lemma adjustByInputs_distinct:
  "adjustByInputs accs ins = Inr accs' \<Longrightarrow> distinct (map fst accs) \<Longrightarrow> distinct (map fst accs')"
proof (induction ins arbitrary: accs)
  case Nil
  then show ?case by simp
next
  case (Cons inp ins)
  then show ?case
    by (auto simp: distinct_update split: if_splits option.splits)
qed

lemma adjustByInputs_keyed:
  "adjustByInputs accs ins = Inr accs' \<Longrightarrow> keyed (map_of accs) \<Longrightarrow> keyed (map_of accs')"
proof (induction ins arbitrary: accs)
  case Nil
  then show ?case by simp
next
  case (Cons inp ins)
  from Cons.prems(1) obtain acc where
    m: "map_of accs (in_Address inp) = Some acc" and
    r: "adjustByInputs
          (AList.update (in_Address inp) (IncSequence (SubtractFromBalance acc (in_Amount inp))) accs) ins
        = Inr accs'"
    by (auto split: if_splits option.splits)
  from keyedD[OF Cons.prems(2) m]
  have "keyed (map_of (AList.update (in_Address inp)
          (IncSequence (SubtractFromBalance acc (in_Amount inp))) accs))"
    using Cons.prems(2)
    by (simp add: update_conv' keyed_upd IncSequence_def SubtractFromBalance_def)
  from Cons.IH[OF r this] show ?case .
qed

lemma adjustByInputs_hit:
  "adjustByInputs accs ins = Inr accs' \<Longrightarrow> distinct (map in_Address ins) \<Longrightarrow> inp \<in> set ins \<Longrightarrow>
   \<exists>acc. map_of accs (in_Address inp) = Some acc \<and>
     map_of accs' (in_Address inp) = Some (IncSequence (SubtractFromBalance acc (in_Amount inp)))"
proof (induction ins arbitrary: accs)
  case Nil
  then show ?case by simp
next
  case (Cons i ins)
  from Cons.prems(1) obtain acc where
    m: "map_of accs (in_Address i) = Some acc" and
    r: "adjustByInputs
          (AList.update (in_Address i) (IncSequence (SubtractFromBalance acc (in_Amount i))) accs) ins
        = Inr accs'"
    by (auto split: if_splits option.splits)
  from Cons.prems(2) have d: "distinct (map in_Address ins)" and n: "in_Address i \<notin> in_Address ` set ins"
    by auto
  show ?case
  proof (cases "inp = i")
    case True
    from adjustByInputs_other[OF r n] m True show ?thesis by (simp add: update_conv')
  next
    case False
    with Cons.prems(3) have s: "inp \<in> set ins" by simp
    with n have "in_Address inp \<noteq> in_Address i" by (metis image_eqI)
    with Cons.IH[OF r d s] show ?thesis by (simp add: update_conv')
  qed
qed

lemma adjustByOutputs_other:
  "adjustByOutputs accs outs = Inr accs' \<Longrightarrow> k \<notin> out_Address ` set outs \<Longrightarrow> map_of accs' k = map_of accs k"
proof (induction outs arbitrary: accs)
  case Nil
  then show ?case by simp
next
  case (Cons out outs)
  then show ?case
    by (auto simp: update_conv' split: if_splits option.splits)
qed

lemma adjustByOutputs_distinct:
  "adjustByOutputs accs outs = Inr accs' \<Longrightarrow> distinct (map fst accs) \<Longrightarrow> distinct (map fst accs')"
proof (induction outs arbitrary: accs)
  case Nil
  then show ?case by simp
next
  case (Cons out outs)
  then show ?case
    by (auto simp: distinct_update split: if_splits option.splits)
qed

lemma adjustByOutputs_keyed:
  "adjustByOutputs accs outs = Inr accs' \<Longrightarrow> keyed (map_of accs) \<Longrightarrow> keyed (map_of accs')"
proof (induction outs arbitrary: accs)
  case Nil
  then show ?case by simp
next
  case (Cons out outs)
  from Cons.prems(1) obtain acc where
    m: "map_of accs (out_Address out) = Some acc" and
    r: "adjustByOutputs (AList.update (out_Address out) (AddToBalance acc (out_Amount out)) accs) outs
        = Inr accs'"
    by (auto split: if_splits option.splits)
  from keyedD[OF Cons.prems(2) m]
  have "keyed (map_of (AList.update (out_Address out) (AddToBalance acc (out_Amount out)) accs))"
    using Cons.prems(2)
    by (simp add: update_conv' keyed_upd AddToBalance_def)
  from Cons.IH[OF r this] show ?case .
qed

lemma updateAccounts_accounts:
  "distinct (map fst accs) \<Longrightarrow> keyed (map_of accs) \<Longrightarrow>
   accounts (updateAccounts bc accs) k =
     (case map_of accs k of Some a \<Rightarrow> Some a | None \<Rightarrow> accounts bc k)"
proof (induction accs arbitrary: bc)
  case Nil
  then show ?case by (simp add: updateAccounts_def)
next
  case (Cons p accs)
  obtain k0 a0 where p: "p = (k0, a0)" by (cases p)
  from Cons.prems(1) have n: "k0 \<notin> fst ` set accs" and d: "distinct (map fst accs)"
    unfolding p by auto
  have m0: "map_of (p # accs) k0 = Some a0" unfolding p by simp
  from keyedD[OF Cons.prems(2) m0] have a: "Address a0 = k0" .
  have ky: "keyed (map_of accs)"
    unfolding keyed_def
  proof (intro allI impI)
    fix a acc assume h: "map_of accs a = Some acc"
    then have "(a, acc) \<in> set accs" by (rule map_of_SomeD)
    then have "a \<in> fst ` set accs" by force
    with n have "a \<noteq> k0" by auto
    with h have "map_of (p # accs) a = Some acc" unfolding p by simp
    from keyedD[OF Cons.prems(2) this] show "Address acc = a" .
  qed
  have ih: "accounts (updateAccounts (UpdateAccount bc a0) accs) k =
     (case map_of accs k of Some a \<Rightarrow> Some a | None \<Rightarrow> accounts (UpdateAccount bc a0) k)"
    by (rule Cons.IH[OF d ky])
  have st: "updateAccounts bc (p # accs) = updateAccounts (UpdateAccount bc a0) accs"
    unfolding p by (simp add: updateAccounts_def)
  have none: "map_of accs k0 = None" using n by (simp add: map_of_eq_None_iff)
  show ?case
  proof (cases "k = k0")
    case True
    have "accounts (UpdateAccount bc a0) k0 = Some a0" by (simp add: UpdateAccount_def a)
    with ih none m0 show ?thesis unfolding st True by (simp split: option.splits)
  next
    case False
    have "accounts (UpdateAccount bc a0) k = accounts bc k" using False by (simp add: UpdateAccount_def a)
    moreover have "map_of (p # accs) k = map_of accs k" unfolding p using False by simp
    ultimately show ?thesis using ih unfolding st by (simp split: option.splits)
  qed
qed

lemma updateAccounts_rest:
  "storage (updateAccounts bc accs) = storage bc \<and> names (updateAccounts bc accs) = names bc"
proof (induction accs arbitrary: bc)
  case Nil
  then show ?case by (simp add: updateAccounts_def)
next
  case (Cons p accs)
  have "updateAccounts bc (p # accs) = updateAccounts (UpdateAccount bc (snd p)) accs"
    by (simp add: updateAccounts_def)
  with Cons.IH[of "UpdateAccount bc (snd p)"] show ?case by (simp add: UpdateAccount_def)
qed

section \<open>Properties of the dispatcher\<close>

lemma executeSendTx_success:
  assumes "executeSendTx d exe ins outs = (None, exe')"
  obtains accs ins1 accs2 accs3 accs4 where
    "getInputs_loop d (accounts (blockCache exe)) [] ins = Inr (accs, ins1)"
    "getOrMakeOutputs_loop d (accounts (blockCache exe)) accs False outs = Inr accs2"
    "adjustByInputs accs2 ins1 = Inr accs3"
    "adjustByOutputs accs3 outs = Inr accs4"
    "blockCache exe' = updateAccounts (blockCache exe) accs4"
  using assms unfolding executeSendTx_def getInputs_def getOrMakeOutputs_def
  by (auto split: sum.splits prod.splits bool.splits if_splits)

lemma executeSendTx_error:
  "executeSendTx d exe ins outs = (Some e, exe') \<Longrightarrow> exe' = exe"
  unfolding executeSendTx_def
  by (auto split: sum.splits prod.splits bool.splits if_splits)

lemma executeSendTx_runCall:
  "executeSendTx d (exe\<lparr>runCall := b\<rparr>) ins outs =
     (fst (executeSendTx d exe ins outs), (snd (executeSendTx d exe ins outs))\<lparr>runCall := b\<rparr>)"
  unfolding executeSendTx_def
  by (auto split: sum.splits prod.splits bool.splits if_splits)

lemma executeSendTx_inputs:
  assumes ex: "executeSendTx d exe ins outs = (None, exe')"
    and ky: "keyed (accounts (blockCache exe))"
    and inp: "inp \<in> set ins"
  shows "debited exe exe' (in_Address inp) 1 (in_Amount inp)"
proof -
  let ?g = "accounts (blockCache exe)"
  let ?k = "in_Address inp"
  from ex obtain accs ins1 accs2 accs3 accs4 where
    gi: "getInputs_loop d ?g [] ins = Inr (accs, ins1)" and
    go: "getOrMakeOutputs_loop d ?g accs False outs = Inr accs2" and
    ai: "adjustByInputs accs2 ins1 = Inr accs3" and
    ao: "adjustByOutputs accs3 outs = Inr accs4" and
    bc: "blockCache exe' = updateAccounts (blockCache exe) accs4"
    by (rule executeSendTx_success)
  from getInputs_loop_inputs[OF gi inp] obtain acc0 acc1 where
    g0: "?g ?k = Some acc0" and m1: "map_of accs ?k = Some acc1" and
    sq: "Sequence acc1 = Sequence acc0" and bl: "Balance acc1 = Balance acc0"
    by blast
  from getOrMakeOutputs_loop_fresh[OF go] m1 have nout: "?k \<notin> out_Address ` set outs"
    by auto
  from getOrMakeOutputs_loop_other[OF go nout] m1 have m2: "map_of accs2 ?k = Some acc1"
    by simp
  from getInputs_loop_same[OF gi]
  have same: "map (\<lambda>i. (in_Address i, in_Amount i)) ins1 = map (\<lambda>i. (in_Address i, in_Amount i)) ins" .
  from inp have "(?k, in_Amount inp) \<in> set (map (\<lambda>i. (in_Address i, in_Amount i)) ins)"
    by force
  with same have "(?k, in_Amount inp) \<in> set (map (\<lambda>i. (in_Address i, in_Amount i)) ins1)"
    by simp
  then obtain inp1 where i1: "inp1 \<in> set ins1" and a1: "in_Address inp1 = ?k"
    and v1: "in_Amount inp1 = in_Amount inp"
    by auto
  from same have "map in_Address ins1 = map in_Address ins"
    by (metis (no_types, lifting) list.map_comp comp_def fst_conv map_eq_conv) 
  with getInputs_loop_fresh[OF gi] have d1: "distinct (map in_Address ins1)" by simp
  from adjustByInputs_hit[OF ai d1 i1] m2 a1 v1
  have m3: "map_of accs3 ?k = Some (IncSequence (SubtractFromBalance acc1 (in_Amount inp)))"
    by simp
  from adjustByOutputs_other[OF ao nout] m3
  have m4: "map_of accs4 ?k = Some (IncSequence (SubtractFromBalance acc1 (in_Amount inp)))"
    by simp
  have "distinct (map fst accs)" using getInputs_loop_distinct[OF gi] by simp
  then have "distinct (map fst accs2)" by (rule getOrMakeOutputs_loop_distinct[OF go])
  then have "distinct (map fst accs3)" by (rule adjustByInputs_distinct[OF ai])
  then have d4: "distinct (map fst accs4)" by (rule adjustByOutputs_distinct[OF ao])
  have "keyed (map_of accs)" using getInputs_loop_keyed[OF gi ky] by (simp add: keyed_def)
  then have "keyed (map_of accs2)" by (rule getOrMakeOutputs_loop_keyed[OF go ky])
  then have "keyed (map_of accs3)" by (rule adjustByInputs_keyed[OF ai])
  then have k4: "keyed (map_of accs4)" by (rule adjustByOutputs_keyed[OF ao])
  from updateAccounts_accounts[OF d4 k4, of "blockCache exe" ?k] m4 bc
  have "accounts (blockCache exe') ?k = Some (IncSequence (SubtractFromBalance acc1 (in_Amount inp)))"
    by simp
  with g0 sq bl show ?thesis
    by (simp add: debited_def IncSequence_def SubtractFromBalance_def)
qed

lemma nameRegUpdate_accounts:
  "nameRegUpdate d bc inp name dat val cpb ei h = Inr bc1 \<Longrightarrow>
   accounts bc1 = accounts bc \<and> storage bc1 = storage bc"
  unfolding nameRegUpdate_def
  by (auto simp: UpdateNameRegEntry_def RemoveNameRegEntry_def Let_def split: option.splits if_splits)

lemma executeNameTx_debit:
  assumes ex: "executeNameTx d exe inp name dat fee = (None, exe')"
    and ky: "keyed (accounts (blockCache exe))"
  shows "debited exe exe' (in_Address inp) 1 (in_Amount inp - fee)"
proof -
  from ex obtain inAcc0 inAcc1 inp1 bc1 where
    g0: "accounts (blockCache exe) (in_Address inp) = Some inAcc0" and
    c: "checkInputPubKey d inAcc0 inp = Inr (inAcc1, inp1)" and
    n: "nameRegUpdate d (blockCache exe) inp1 name dat (in_Amount inp1 - fee)
          (nameCostPerBlock d (nameBaseCost d name dat))
          ((in_Amount inp1 - fee) div nameCostPerBlock d (nameBaseCost d name dat))
          (LastBlockHeight (exe_tip exe)) = Inr bc1" and
    bc: "blockCache exe' = UpdateAccount bc1 (SubtractFromBalance (IncSequence inAcc1) (in_Amount inp1 - fee))"
    unfolding executeNameTx_def
    by (auto simp: Let_def split: sum.splits prod.splits bool.splits if_splits option.splits)
  from keyedD[OF ky g0] checkInputPubKey_Inr[OF c] nameRegUpdate_accounts[OF n] g0 bc
  show ?thesis
    by (simp add: debited_def UpdateAccount_def IncSequence_def SubtractFromBalance_def)
qed

lemmas permission_flags =
  permission_HasBase_def permission_SetBase_def permission_UnsetBase_def permission_SetGlobal_def
  permission_HasRole_def permission_AddRole_def permission_RemoveRole_def

lemma applyPermArgs_Address:
  assumes "applyPermArgs d g args = Inr permAcc" and "keyed g"
  shows "Address permAcc = permTarget d args"
proof -
  from assms(1) obtain acc perms where "g (permTarget d args) = Some acc"
    and "permAcc = acc\<lparr>Permissions := perms\<rparr>"
    unfolding applyPermArgs_def mutatePermissions_def permTarget_def
    by (auto simp: permission_flags split: if_splits option.splits sum.splits)
  with keyedD[OF assms(2)] show ?thesis by simp
qed

lemma executePermissionsTx_debit:
  assumes ex: "executePermissionsTx d exe inp args = (None, exe')"
    and ky: "keyed (accounts (blockCache exe))"
    and tg: "permTarget d args \<noteq> in_Address inp"
  shows "debited exe exe' (in_Address inp) 1 (in_Amount inp)"
proof -
  from ex obtain inAcc0 inAcc1 inp1 permAcc where
    g0: "accounts (blockCache exe) (in_Address inp) = Some inAcc0" and
    c: "checkInputPubKey d inAcc0 inp = Inr (inAcc1, inp1)" and
    a: "applyPermArgs d (accounts (blockCache exe)) args = Inr permAcc" and
    bc: "blockCache exe' =
           UpdateAccount (UpdateAccount (blockCache exe)
             (SubtractFromBalance (IncSequence inAcc1) (in_Amount inp1))) permAcc"
    unfolding executePermissionsTx_def
    by (auto split: sum.splits prod.splits bool.splits if_splits option.splits)
  from applyPermArgs_Address[OF a ky] tg have "Address permAcc \<noteq> in_Address inp" by simp
  with keyedD[OF ky g0] checkInputPubKey_Inr[OF c] g0 bc
  show ?thesis
    by (simp add: debited_def UpdateAccount_def IncSequence_def SubtractFromBalance_def)
qed

lemma executeCallTx_check_debit:
  assumes ex: "executeCallTx d exe inp addr gasLimit fee dat = (None, exe')"
    and rc: "\<not> runCall exe"
    and ky: "keyed (accounts (blockCache exe))"
  shows "debited exe exe' (in_Address inp) (if addr = None then 2 else 1) (in_Amount inp)"
proof -
  from ex rc obtain inAcc0 inAcc1 inp1 where
    g0: "accounts (blockCache exe) (in_Address inp) = Some inAcc0" and
    c: "checkInputPubKey d inAcc0 inp = Inr (inAcc1, inp1)" and
    bc: "blockCache exe' =
           UpdateAccount (UpdateAccount (blockCache exe) (SubtractFromBalance (IncSequence inAcc1) fee))
             (if addr = None
                then IncSequence (SubtractFromBalance (SubtractFromBalance (IncSequence inAcc1) fee)
                                    (in_Amount inp1 - fee))
              else SubtractFromBalance (SubtractFromBalance (IncSequence inAcc1) fee)
                     (in_Amount inp1 - fee))"
    unfolding executeCallTx_def
    by (auto simp: Let_def split: sum.splits prod.splits bool.splits if_splits option.splits)
  from keyedD[OF ky g0] checkInputPubKey_Inr[OF c] g0 bc
  show ?thesis
    by (simp add: debited_def UpdateAccount_def IncSequence_def SubtractFromBalance_def)
qed

lemma debited_advanced: "debited exe exe' a n amt \<Longrightarrow> advanced exe exe' a n"
  by (auto simp: debited_def advanced_def split: option.splits)

lemma executeCallTx_commit:
  assumes "runCall exe"
    and "accounts (blockCache exe) (in_Address inp) = Some acc"
    and "(if addr = None then hasCreateContractPermission d (accounts (blockCache exe)) acc
          else hasCallPermission d (accounts (blockCache exe)) acc) = Inr True"
    and "checkInputPubKey d acc inp = Inr (acc', inp')"
    and "validateInput d acc' (signBytes d (chainID exe) (CallTx inp' addr gasLimit fee dat)) inp' = None"
    and "fee \<le> in_Amount inp'"
    and "case addr of None \<Rightarrow> True | Some a \<Rightarrow> \<not> registeredNativeContract d a"
  shows "executeCallTx d exe inp addr gasLimit fee dat =
         runCallBlock d exe (UpdateAccount (blockCache exe) (SubtractFromBalance (IncSequence acc') fee))
           (CallTx inp' addr gasLimit fee dat) inp' addr gasLimit dat
           (SubtractFromBalance (IncSequence acc') fee)
           (case addr of None \<Rightarrow> None | Some a \<Rightarrow> accounts (blockCache exe) a)
           (in_Amount inp' - fee)"
proof -
  from assms(6) have "\<not> in_Amount inp' < fee" by simp
  with assms(1-5,7) show ?thesis
    unfolding executeCallTx_def
    by (cases addr) (simp_all add: Let_def)
qed

lemma u64_div_mult_div: "b \<noteq> 0 \<Longrightarrow> (v div b) * b div b = (v div b :: u64)"
proof -
  assume "b \<noteq> 0"
  then have "0 < b" by (simp add: word_greater_zero_iff)
  moreover have "unat (v div b) * unat b < 2 ^ LENGTH(64)"
    by (rule div_lt'[OF order_refl])
  ultimately show ?thesis by (rule word_div_mult)
qed

lemma nameRegUpdate_round_trip:
  assumes ent: "names bc name = Some entry"
    and nm: "Name entry = name"
    and dt: "Data entry = dat"
    and ow: "Owner entry = in_Address inp"
    and cr: "Expires entry = h + v div b"
    and ne: "h < Expires entry"
    and d0: "dat \<noteq> []"
    and b: "nameBaseCost d name dat = b"
    and b0: "b \<noteq> 0"
  shows "case nameRegUpdate d bc inp name dat 0 b ei h of
           Inl e \<Rightarrow> True
         | Inr bc1 \<Rightarrow> map_option Expires (names bc1 name) = Some (Expires entry)"
proof -
  have "(Expires entry - h) * nameBaseCost d (Name entry) (Data entry) = (v div b) * b"
    by (simp add: cr nm dt b)
  then have "((Expires entry - h) * nameBaseCost d (Name entry) (Data entry) + 0) div b = v div b"
    using u64_div_mult_div[OF b0, of v] by simp
  then show ?thesis
    using ent ow ne d0 nm cr
    by (simp add: nameRegUpdate_def Let_def UpdateNameRegEntry_def)
qed

lemma executeNameTx_round_trip:
  assumes ent: "names (blockCache exe) name = Some entry"
    and nm: "Name entry = name"
    and dt: "Data entry = dat"
    and ow: "Owner entry = in_Address inp"
    and cr: "Expires entry =
               LastBlockHeight (exe_tip exe) + v div nameCostPerBlock d (nameBaseCost d name dat)"
    and ne: "LastBlockHeight (exe_tip exe) < Expires entry"
    and v0: "in_Amount inp = fee"
    and d0: "dat \<noteq> []"
    and m1: "nameCostPerBlock d (nameBaseCost d name dat) = nameBaseCost d name dat"
  shows "map_option Expires (names (blockCache (snd (executeNameTx d exe inp name dat fee))) name)
         = Some (Expires entry)"
proof -
  have same: "map_option Expires (names (blockCache exe) name) = Some (Expires entry)"
    by (simp add: ent)
  have step: "map_option Expires
         (names (UpdateAccount bc1 acc) name) = Some (Expires entry)"
    if c: "in_Address inp1 = in_Address inp"
    and n: "nameRegUpdate d (blockCache exe) inp1 name dat 0 (nameBaseCost d name dat) ei
              (LastBlockHeight (exe_tip exe)) = Inr bc1"
    and z: "nameBaseCost d name dat \<noteq> 0"
    for inp1 bc1 acc ei
  proof -
    from c ow have ow1: "Owner entry = in_Address inp1" by simp
    from nameRegUpdate_round_trip[OF ent nm dt ow1 _ ne d0 refl z, of v ei] cr m1 n
    show ?thesis by (simp add: UpdateAccount_def)
  qed
  show ?thesis
    unfolding executeNameTx_def
    using same step v0 m1
    by (auto simp: Let_def dest!: checkInputPubKey_Inr
          split: sum.splits prod.splits bool.splits if_splits option.splits)
qed

lemma executeNameTx_delete:
  assumes g0: "accounts (blockCache exe) (in_Address inp) = Some inAcc0"
    and perm: "hasNamePermission d (accounts (blockCache exe)) inAcc0 = Inr True"
    and pk: "checkInputPubKey d inAcc0 inp = Inr (inAcc1, inp1)"
    and vi: "validateInput d inAcc1 (signBytes d (chainID exe) (NameTx inp1 name [] fee)) inp1 = None"
    and v0: "in_Amount inp = fee"
    and vs: "validateStrings d name [] = None"
    and cpb: "nameCostPerBlock d (nameBaseCost d name []) \<noteq> 0"
    and ent: "names (blockCache exe) name = Some entry"
    and nm: "Name entry = name"
    and ex: "Expires entry \<le> LastBlockHeight (exe_tip exe)"
  shows "fst (executeNameTx d exe inp name [] fee) = None \<and>
         names (blockCache (snd (executeNameTx d exe inp name [] fee))) name = None"
proof -
  from checkInputPubKey_Inr[OF pk] v0 have a: "in_Amount inp1 = fee" by simp
  from ex have ne: "\<not> LastBlockHeight (exe_tip exe) < Expires entry" by simp
  show ?thesis
    unfolding executeNameTx_def
    using g0 perm pk vi vs cpb ent nm ne a
    by (simp add: Let_def nameRegUpdate_def RemoveNameRegEntry_def UpdateAccount_def)
qed

section \<open>The sample scenarios\<close>

lemma u64_wrap: "(18446744073709551616 :: u64) = 0"
  by simp

lemma exec_pair: "fst (Execute d exe t) = r \<Longrightarrow> Execute d exe t = (r, snd (Execute d exe t))"
  by (metis prod.collapse)

lemma sample_keyed: "keyed (accounts (blockCache (sample_exe rc)))"
  by (auto simp: keyed_def sample_defs model_defs split: if_splits)

lemma sample_send_ok: "fst (Execute sample_deps (sample_exe rc) sample_sendTx) = None"
  by (simp add: sample_sendTx_def sample_defs model_defs)

lemma sample_name_ok: "fst (Execute sample_deps (sample_exe True) sample_nameTx) = None"
  by (simp add: sample_nameTx_def sample_defs model_defs)

lemma sample_perm_ok: "fst (Execute sample_deps (sample_exe True) sample_permTx) = None"
  by (simp add: sample_permTx_def sample_defs model_defs)

lemma sample_create_ok: "fst (Execute sample_deps (sample_exe rc) sample_createTx) = None"
  by (simp add: sample_createTx_def sample_defs model_defs)

section \<open>The claims\<close>

text \<open>
  Claim C1, as amended.  When \<^verbatim>\<open>Execute\<close> succeeds on a cache that stores every
  account under its own address: for a SendTx, every input account's sequence is its
  previous sequence plus one and the input's amount has been subtracted from its
  balance; for a NameTx the sequence is the previous plus one and \<open>amount - fee\<close> has
  been subtracted (the fee is not debited); for a PermissionsTx whose target is not the
  input account the sequence is the previous plus one and the amount has been
  subtracted; for a CallTx in the check path (\<open>runCall = false\<close>) the amount has been
  subtracted and the sequence has advanced by one, or by two when a contract is
  created.  Sequence and balance are 64-bit values.
\<close>

theorem execute_debits_input:
  assumes "Execute d exe t = (None, exe')"
    and "keyed (accounts (blockCache exe))"
  shows "case t of
      SendTx ins outs \<Rightarrow> (\<forall>inp \<in> set ins. debited exe exe' (in_Address inp) 1 (in_Amount inp))
    | NameTx inp name dat fee \<Rightarrow> debited exe exe' (in_Address inp) 1 (in_Amount inp - fee)
    | PermissionsTx inp args \<Rightarrow>
        permTarget d args \<noteq> in_Address inp \<longrightarrow> debited exe exe' (in_Address inp) 1 (in_Amount inp)
    | CallTx inp addr gasLimit fee dat \<Rightarrow>
        \<not> runCall exe \<longrightarrow>
        debited exe exe' (in_Address inp) (if addr = None then 2 else 1) (in_Amount inp)"
proof (cases t)
  case (SendTx ins outs)
  with assms show ?thesis by (auto intro: executeSendTx_inputs)
next
  case (CallTx inp addr gasLimit fee dat)
  with assms show ?thesis using executeCallTx_check_debit[of d exe inp addr gasLimit fee dat exe']
    by simp
next
  case (NameTx inp name dat fee)
  with assms show ?thesis by (simp add: executeNameTx_debit)
next
  case (PermissionsTx inp args)
  with assms show ?thesis by (simp add: executePermissionsTx_debit)
qed

text \<open>
  Witness for C1: the four sample transactions succeed on the sample executor and debit
  account 1 as stated.
\<close>

theorem execute_debits_input_witness:
  "debited (sample_exe True) (snd (Execute sample_deps (sample_exe True) sample_sendTx)) 1 1 600 \<and>
   debited (sample_exe True) (snd (Execute sample_deps (sample_exe True) sample_nameTx)) 1 1 190 \<and>
   debited (sample_exe True) (snd (Execute sample_deps (sample_exe True) sample_permTx)) 1 1 10 \<and>
   debited (sample_exe False) (snd (Execute sample_deps (sample_exe False) sample_createTx)) 1 2 2000"
proof -
  have "debited (sample_exe True) (snd (Execute sample_deps (sample_exe True) sample_sendTx)) 1 1 600"
    using execute_debits_input[OF exec_pair[OF sample_send_ok] sample_keyed, of True]
    by (simp add: sample_sendTx_def sample_input1_def)
  moreover
  have "debited (sample_exe True) (snd (Execute sample_deps (sample_exe True) sample_nameTx)) 1 1 190"
    using execute_debits_input[OF exec_pair[OF sample_name_ok] sample_keyed]
    by (simp add: sample_nameTx_def sample_input1_def)
  moreover
  have "debited (sample_exe True) (snd (Execute sample_deps (sample_exe True) sample_permTx)) 1 1 10"
    using execute_debits_input[OF exec_pair[OF sample_perm_ok] sample_keyed]
    by (simp add: sample_permTx_def sample_input1_def permTarget_def permission_SetBase_def
          permission_SetGlobal_def)
  moreover
  have "debited (sample_exe False) (snd (Execute sample_deps (sample_exe False) sample_createTx)) 1 2 2000"
    using execute_debits_input[OF exec_pair[OF sample_create_ok] sample_keyed, of False]
    by (simp add: sample_createTx_def sample_input1_def sample_exe_def newExecutor_def NewBlockCache_def)
  ultimately show ?thesis by simp
qed

text \<open>
  Counterexample to C1 as stated: the sample NameTx (amount 1190, fee 1000) succeeds and
  leaves account 1 with 9810 of its 10000; the input's amount has not been subtracted.
\<close>

theorem execute_debits_amount_counterexample:
  "fst (Execute sample_deps (sample_exe True) sample_nameTx) = None \<and>
   map_option Balance (accounts (blockCache (sample_exe True)) 1) = Some 10000 \<and>
   map_option Balance
     (accounts (blockCache (snd (Execute sample_deps (sample_exe True) sample_nameTx))) 1) = Some 9810 \<and>
   \<not> debited (sample_exe True) (snd (Execute sample_deps (sample_exe True) sample_nameTx)) 1 1 1190"
  by (simp add: sample_nameTx_def sample_defs model_defs debited_def)

text \<open>
  Claim C2 at a failing input.  The claim: a SendTx whose output amounts sum to more than
  its input amounts is rejected.  The totals are summed in 64 bits, so the two outputs
  of \<open>2^63\<close>, which sum to \<open>2^64\<close>, total 0 there: the SendTx with a single input of
  1 succeeds, account 1 pays 1, and accounts 2 and 3 are credited \<open>2^63\<close> each.
\<close>

theorem sendTx_output_sum_overflow:
  "sample_overflowTx =
     SendTx [sample_input1 1]
       [\<lparr>out_Address = 2, out_Amount = 9223372036854775808\<rparr>,
        \<lparr>out_Address = 3, out_Amount = 9223372036854775808\<rparr>] \<and>
   inputTotal [sample_input1 1] = 1 \<and>
   outputTotal [\<lparr>out_Address = 2, out_Amount = 9223372036854775808\<rparr>,
                \<lparr>out_Address = 3, out_Amount = 9223372036854775808\<rparr>] = 18446744073709551616 \<and>
   fst (Execute sample_deps (sample_exe True) sample_overflowTx) = None \<and>
   map_option Balance
     (accounts (blockCache (snd (Execute sample_deps (sample_exe True) sample_overflowTx))) 1) = Some 9999 \<and>
   map_option Balance
     (accounts (blockCache (snd (Execute sample_deps (sample_exe True) sample_overflowTx))) 2)
     = Some (500 + 9223372036854775808) \<and>
   map_option Balance
     (accounts (blockCache (snd (Execute sample_deps (sample_exe True) sample_overflowTx))) 3)
     = Some 9223372036854775808"
  by (simp add: sample_overflowTx_def sample_defs model_defs u64_wrap inputTotal_def outputTotal_def)

text \<open>
  Claim C3.  An existing, non-expired entry that its owner created at the current height
  with value \<open>v\<close> (so \<open>expires = height + v / cost_per_block\<close>), and a second NameTx at
  the same height from the same owner with the same name, the same non-empty data and
  value 0: the entry is still there afterwards and its \<open>expires\<close> field is unchanged,
  whether the second transaction is accepted or rejected.  The cost per block of a name
  is its base cost, as the source has it where it computes \<^verbatim>\<open>costPerBlock\<close> ("cost of a
  name for one block is len(data) + 32"); the constants of package \<^verbatim>\<open>txs\<close> are
  parameters, and this is what the last hypothesis says of them.
\<close>

theorem name_credit_round_trip:
  assumes "names (blockCache exe) name = Some entry"
    and "Name entry = name"
    and "Data entry = dat"
    and "Owner entry = in_Address inp"
    and "Expires entry =
           LastBlockHeight (exe_tip exe) + v div nameCostPerBlock d (nameBaseCost d name dat)"
    and "LastBlockHeight (exe_tip exe) < Expires entry"
    and "in_Amount inp = fee"
    and "dat \<noteq> []"
    and "nameCostPerBlock d (nameBaseCost d name dat) = nameBaseCost d name dat"
  shows "map_option Expires (names (blockCache (snd (Execute d exe (NameTx inp name dat fee)))) name)
         = Some (Expires entry)"
  using executeNameTx_round_trip[OF assms] by simp

text \<open>
  Witness for C3: the entry of account 1 that expires at 110 still expires at 110 after
  the extension with value 0.
\<close>

theorem name_credit_round_trip_witness:
  "map_option Expires
     (names (blockCache (snd (Execute sample_deps (sample_exe_named sample_entry) sample_extendTx))) ''foo'')
   = Some 110"
proof -
  have "map_option Expires
     (names (blockCache (snd (Execute sample_deps (sample_exe_named sample_entry)
         (NameTx (sample_input1 1000) ''foo'' ''bar'' 1000)))) ''foo'')
   = Some (Expires sample_entry)"
    by (rule name_credit_round_trip[where v = 380]) (simp_all add: sample_exe_named_def sample_entry_def sample_defs model_defs)
  then show ?thesis by (simp add: sample_extendTx_def sample_entry_def)
qed

text \<open>
  Claim C4, as amended.  If the account has no public key, the step succeeds exactly
  when the input carries a public key whose derived address is the account's address
  (\<^verbatim>\<open>ErrTxUnknownPubKey\<close> without a key, \<^verbatim>\<open>ErrTxInvalidPubKey\<close> on another address);
  on success the account is updated with that public key and the input is left as it
  is, its pubkey field included.  If the account already has a public key, the step
  succeeds, the account is unchanged and the input's pubkey field is cleared.
\<close>

theorem checkInputPubKey_binding:
  "(PublicKey acc = None \<longrightarrow>
      ((\<exists>r. checkInputPubKey d acc inp = Inr r) \<longleftrightarrow>
         (\<exists>pk. in_PubKey inp = Some pk \<and> pubKeyAddress d pk = Address acc)) \<and>
      (in_PubKey inp = None \<longrightarrow> checkInputPubKey d acc inp = Inl ErrTxUnknownPubKey) \<and>
      (\<forall>pk. in_PubKey inp = Some pk \<and> pubKeyAddress d pk \<noteq> Address acc \<longrightarrow>
         checkInputPubKey d acc inp = Inl ErrTxInvalidPubKey) \<and>
      (\<forall>acc' inp'. checkInputPubKey d acc inp = Inr (acc', inp') \<longrightarrow>
         acc' = acc\<lparr>PublicKey := in_PubKey inp\<rparr> \<and> inp' = inp)) \<and>
   (PublicKey acc \<noteq> None \<longrightarrow>
      checkInputPubKey d acc inp = Inr (acc, inp\<lparr>in_PubKey := None\<rparr>))"
  by (auto simp: checkInputPubKey_def SetPublicKey_def split: option.splits)

text \<open>
  Witness for C4: account 2 has no key and is bound to the key of its input; account 1
  has a key, and the key its input declares again is cleared.
\<close>

theorem checkInputPubKey_binding_witness:
  "checkInputPubKey sample_deps sample_acc2 (sample_input2 10)
     = Inr (sample_acc2\<lparr>PublicKey := Some [2, 9]\<rparr>, sample_input2 10) \<and>
   checkInputPubKey sample_deps sample_acc1 ((sample_input1 10)\<lparr>in_PubKey := Some [1, 7]\<rparr>)
     = Inr (sample_acc1, sample_input1 10)"
proof -
  have a: "PublicKey sample_acc2 = None" and b: "PublicKey sample_acc1 \<noteq> None"
    by (simp_all add: sample_input2_def sample_defs)
  have "\<exists>pk. in_PubKey (sample_input2 10) = Some pk \<and> pubKeyAddress sample_deps pk = Address sample_acc2"
    by (simp add: sample_input2_def sample_defs)
  with a checkInputPubKey_binding[of sample_acc2 sample_deps "sample_input2 10"]
  obtain r where r: "checkInputPubKey sample_deps sample_acc2 (sample_input2 10) = Inr r"
    by blast
  with a checkInputPubKey_binding[of sample_acc2 sample_deps "sample_input2 10"]
  have "r = (sample_acc2\<lparr>PublicKey := in_PubKey (sample_input2 10)\<rparr>, sample_input2 10)"
    by (cases r) simp
  with r have 1: "checkInputPubKey sample_deps sample_acc2 (sample_input2 10)
     = Inr (sample_acc2\<lparr>PublicKey := Some [2, 9]\<rparr>, sample_input2 10)"
    by (simp add: sample_input2_def)
  from b checkInputPubKey_binding[of sample_acc1 sample_deps "(sample_input1 10)\<lparr>in_PubKey := Some [1, 7]\<rparr>"]
  have "checkInputPubKey sample_deps sample_acc1 ((sample_input1 10)\<lparr>in_PubKey := Some [1, 7]\<rparr>)
     = Inr (sample_acc1, sample_input1 10)"
    by (simp add: sample_input1_def)
  with 1 show ?thesis by simp
qed

text \<open>
  Counterexample to C4 as stated: account 2 has no public key, the step succeeds and
  binds the key, and the input still carries its public key afterwards.
\<close>

theorem checkInputPubKey_clears_counterexample:
  "PublicKey sample_acc2 = None \<and>
   checkInputPubKey sample_deps sample_acc2 (sample_input2 10)
     = Inr (SetPublicKey sample_acc2 [2, 9], sample_input2 10) \<and>
   in_PubKey (sample_input2 10) = Some [2, 9]"
  by (simp add: sample_input2_def sample_defs model_defs)

text \<open>
  Claim C5.  A CallTx in the commit path (\<open>runCall = true\<close>) that passes the checks of
  its input and whose VM invocation answers an error: \<^verbatim>\<open>Execute\<close> returns \<^verbatim>\<open>nil\<close>, and
  the Block Cache afterwards is the Block Cache before with one account written, the
  caller's, with its sequence advanced by one and the fee subtracted.  So no value has
  reached the callee, and storage, the name registry and every other account are
  unchanged: nothing of the Tx Cache has reached the Block Cache.
\<close>

theorem callTx_vm_failure_keeps_fee:
  assumes "runCall exe"
    and "accounts (blockCache exe) (in_Address inp) = Some acc"
    and "(if addr = None then hasCreateContractPermission d (accounts (blockCache exe)) acc
          else hasCallPermission d (accounts (blockCache exe)) acc) = Inr True"
    and "checkInputPubKey d acc inp = Inr (acc', inp')"
    and "validateInput d acc' (signBytes d (chainID exe) (CallTx inp' addr gasLimit fee dat)) inp' = None"
    and "fee \<le> in_Amount inp'"
    and "case addr of None \<Rightarrow> True | Some a \<Rightarrow> \<not> registeredNativeContract d a"
    and "callSetup d exe addr dat (SubtractFromBalance (IncSequence acc') fee)
           (case addr of None \<Rightarrow> None | Some a \<Rightarrow> accounts (blockCache exe) a)
         = CallReady caller callee code"
    and "vmCall d
           (tc_UpdateAccount
              (tc_UpdateAccount
                 (NewTxCache (UpdateAccount (blockCache exe) (SubtractFromBalance (IncSequence acc') fee)))
                 caller)
              callee)
           (vmParams d exe) caller callee code dat (in_Amount inp' - fee) gasLimit
         = VMErr ret e evs"
  shows "fst (Execute d exe (CallTx inp addr gasLimit fee dat)) = None \<and>
    (\<exists>debited_acc.
       blockCache (snd (Execute d exe (CallTx inp addr gasLimit fee dat)))
         = UpdateAccount (blockCache exe) debited_acc \<and>
       Address debited_acc = Address acc \<and>
       Sequence debited_acc = Sequence acc + 1 \<and>
       Balance debited_acc = Balance acc - fee) \<and>
    storage (blockCache (snd (Execute d exe (CallTx inp addr gasLimit fee dat))))
      = storage (blockCache exe) \<and>
    names (blockCache (snd (Execute d exe (CallTx inp addr gasLimit fee dat))))
      = names (blockCache exe) \<and>
    (\<forall>a. a \<noteq> Address acc \<longrightarrow>
       accounts (blockCache (snd (Execute d exe (CallTx inp addr gasLimit fee dat)))) a
         = accounts (blockCache exe) a)"
proof -
  let ?acc2 = "SubtractFromBalance (IncSequence acc') fee"
  have "Execute d exe (CallTx inp addr gasLimit fee dat) =
        runCallBlock d exe (UpdateAccount (blockCache exe) ?acc2)
           (CallTx inp' addr gasLimit fee dat) inp' addr gasLimit dat ?acc2
           (case addr of None \<Rightarrow> None | Some a \<Rightarrow> accounts (blockCache exe) a)
           (in_Amount inp' - fee)"
    using executeCallTx_commit[OF assms(1-7)] by simp
  with assms(8,9) have
    r: "fst (Execute d exe (CallTx inp addr gasLimit fee dat)) = None" and
    b: "blockCache (snd (Execute d exe (CallTx inp addr gasLimit fee dat)))
          = UpdateAccount (blockCache exe) ?acc2"
    by (simp_all add: runCallBlock_def vmRun_def callComplete_def)
  from checkInputPubKey_Inr[OF assms(4)] have
    c: "Address ?acc2 = Address acc" "Sequence ?acc2 = Sequence acc + 1"
       "Balance ?acc2 = Balance acc - fee"
    by (simp_all add: IncSequence_def SubtractFromBalance_def)
  from b c(1) have
    "storage (blockCache (snd (Execute d exe (CallTx inp addr gasLimit fee dat))))
       = storage (blockCache exe)"
    "names (blockCache (snd (Execute d exe (CallTx inp addr gasLimit fee dat))))
       = names (blockCache exe)"
    "\<forall>a. a \<noteq> Address acc \<longrightarrow>
       accounts (blockCache (snd (Execute d exe (CallTx inp addr gasLimit fee dat)))) a
         = accounts (blockCache exe) a"
    by (simp_all add: UpdateAccount_def)
  with r b c show ?thesis by blast
qed

text \<open>
  Witness for C5: the creation whose init code the VM rejects passes the checks, the VM
  answers an error, and \<^verbatim>\<open>Execute\<close> returns \<^verbatim>\<open>nil\<close>; account 1 is at sequence 1 and
  has paid the fee of 1000 only.
\<close>

theorem callTx_vm_failure_keeps_fee_witness:
  "vmCall sample_deps
     (tc_UpdateAccount
        (tc_UpdateAccount
           (NewTxCache (UpdateAccount (blockCache (sample_exe True))
              (SubtractFromBalance (IncSequence sample_acc1) 1000)))
           sample_caller)
        sample_callee)
     (vmParams sample_deps (sample_exe True)) sample_caller sample_callee [254] [254] 1000 1000
     = VMErr [] (Errorf ''invalid opcode'') [VMEvent ''Acc/Call'' [254]] \<and>
   fst (Execute sample_deps (sample_exe True) sample_failingTx) = None \<and>
   map_option Sequence
     (accounts (blockCache (snd (Execute sample_deps (sample_exe True) sample_failingTx))) 1) = Some 1 \<and>
   map_option Balance
     (accounts (blockCache (snd (Execute sample_deps (sample_exe True) sample_failingTx))) 1) = Some 9000 \<and>
   storage (blockCache (snd (Execute sample_deps (sample_exe True) sample_failingTx)))
     = storage (blockCache (sample_exe True))"
proof -
  let ?t = "CallTx (sample_input1 2000) None 1000 1000 [254]"
  let ?r = "Execute sample_deps (sample_exe True) ?t"
  have vm: "vmCall sample_deps
     (tc_UpdateAccount
        (tc_UpdateAccount
           (NewTxCache (UpdateAccount (blockCache (sample_exe True))
              (SubtractFromBalance (IncSequence sample_acc1) 1000)))
           sample_caller)
        sample_callee)
     (vmParams sample_deps (sample_exe True)) sample_caller sample_callee [254] [254]
     (in_Amount (sample_input1 2000) - 1000) 1000
     = VMErr [] (Errorf ''invalid opcode'') [VMEvent ''Acc/Call'' [254]]"
    by (simp add: sample_caller_def sample_callee_def sample_defs)
  have "fst ?r = None \<and>
    (\<exists>debited_acc.
       blockCache (snd ?r) = UpdateAccount (blockCache (sample_exe True)) debited_acc \<and>
       Address debited_acc = Address sample_acc1 \<and>
       Sequence debited_acc = Sequence sample_acc1 + 1 \<and>
       Balance debited_acc = Balance sample_acc1 - 1000) \<and>
    storage (blockCache (snd ?r)) = storage (blockCache (sample_exe True)) \<and>
    names (blockCache (snd ?r)) = names (blockCache (sample_exe True)) \<and>
    (\<forall>a. a \<noteq> Address sample_acc1 \<longrightarrow>
       accounts (blockCache (snd ?r)) a = accounts (blockCache (sample_exe True)) a)"
    by (rule callTx_vm_failure_keeps_fee[where acc' = sample_acc1 and inp' = "sample_input1 2000"
          and caller = sample_caller and callee = sample_callee and code = "[254]"
          and ret = "[]" and e = "Errorf ''invalid opcode''" and evs = "[VMEvent ''Acc/Call'' [254]]",
          OF _ _ _ _ _ _ _ _ vm])
       (simp_all add: sample_caller_def sample_callee_def sample_defs model_defs)
  then obtain debited_acc where r: "fst ?r = None"
    and b: "blockCache (snd ?r) = UpdateAccount (blockCache (sample_exe True)) debited_acc"
    and c: "Address debited_acc = Address sample_acc1"
       "Sequence debited_acc = Sequence sample_acc1 + 1"
       "Balance debited_acc = Balance sample_acc1 - 1000"
    and st: "storage (blockCache (snd ?r)) = storage (blockCache (sample_exe True))"
    by blast
  from b c have "map_option Sequence (accounts (blockCache (snd ?r)) 1) = Some 1"
    and "map_option Balance (accounts (blockCache (snd ?r)) 1) = Some 9000"
    by (simp_all add: UpdateAccount_def sample_acc1_def)
  with r st vm show ?thesis by (simp add: sample_failingTx_def sample_input1_def)
qed

text \<open>
  Claim C6, as amended.  A contract-creating CallTx in the commit path that passes the
  checks of its input and whose VM invocation succeeds, leaving in the Tx Cache the
  caller with the sequence it was handed to the VM with (the VM does not itself change
  the caller's sequence): \<^verbatim>\<open>Execute\<close> returns \<^verbatim>\<open>nil\<close> and the caller's sequence
  afterwards is its sequence before the transaction plus two, one increment by the fee
  debit and one by \<open>DeriveNewAccount\<close>.
\<close>

theorem create_commit_sequence_plus_two:
  assumes "runCall exe"
    and "keyed (accounts (blockCache exe))"
    and "accounts (blockCache exe) (in_Address inp) = Some acc"
    and "hasCreateContractPermission d (accounts (blockCache exe)) acc = Inr True"
    and "checkInputPubKey d acc inp = Inr (acc', inp')"
    and "validateInput d acc' (signBytes d (chainID exe) (CallTx inp' None gasLimit fee dat)) inp' = None"
    and "fee \<le> in_Amount inp'"
    and "callSetup d exe None dat (SubtractFromBalance (IncSequence acc') fee) None
         = CallReady caller callee code"
    and "vmCall d
           (tc_UpdateAccount
              (tc_UpdateAccount
                 (NewTxCache (UpdateAccount (blockCache exe) (SubtractFromBalance (IncSequence acc') fee)))
                 caller)
              callee)
           (vmParams d exe) caller callee code dat (in_Amount inp' - fee) gasLimit
         = VMOk ret txCache evs"
    and "map_option Sequence (tc_accounts txCache (Address caller)) = Some (Sequence caller)"
  shows "fst (Execute d exe (CallTx inp None gasLimit fee dat)) = None \<and>
         advanced exe (snd (Execute d exe (CallTx inp None gasLimit fee dat))) (in_Address inp) 2"
proof -
  let ?acc2 = "SubtractFromBalance (IncSequence acc') fee"
  have e: "Execute d exe (CallTx inp None gasLimit fee dat) =
        runCallBlock d exe (UpdateAccount (blockCache exe) ?acc2)
           (CallTx inp' None gasLimit fee dat) inp' None gasLimit dat ?acc2 None
           (in_Amount inp' - fee)"
    using executeCallTx_commit[of exe inp acc None d acc' inp' gasLimit fee dat] assms(1,3-7)
    by simp
  from assms(8) have cl: "caller = IncSequence ?acc2"
    by (auto simp: callSetup_def DeriveNewAccount_def split: option.splits)
  from checkInputPubKey_Inr[OF assms(5)] keyedD[OF assms(2,3)]
  have a: "Address caller = in_Address inp" and sq: "Sequence caller = Sequence acc + 2"
    by (simp_all add: cl IncSequence_def SubtractFromBalance_def)
  from assms(10) obtain c where c: "tc_accounts txCache (Address caller) = Some c"
    and cs: "Sequence c = Sequence caller"
    by auto
  from e assms(8,9) have
    r: "fst (Execute d exe (CallTx inp None gasLimit fee dat)) = None" and
    b: "accounts (blockCache (snd (Execute d exe (CallTx inp None gasLimit fee dat)))) =
          tc_accounts
            (case tc_accounts txCache (Address callee) of
               None \<Rightarrow> txCache
             | Some c \<Rightarrow> txCache\<lparr>tc_accounts := (tc_accounts txCache)(Address callee \<mapsto> SetCode c ret)\<rparr>)"
    by (simp_all add: runCallBlock_def vmRun_def callComplete_def tc_Sync_def)
  from b c cs have "\<exists>c'. accounts (blockCache (snd (Execute d exe (CallTx inp None gasLimit fee dat))))
                      (Address caller) = Some c' \<and> Sequence c' = Sequence caller"
    by (auto simp: SetCode_def split: option.splits)
  with a sq assms(3) have
    "advanced exe (snd (Execute d exe (CallTx inp None gasLimit fee dat))) (in_Address inp) 2"
    by (auto simp: advanced_def)
  with r show ?thesis by simp
qed

text \<open>
  Witness for C6: scenario S3 on the sample executor; the VM call succeeds and the
  sequence of account 1 advances by two.
\<close>

theorem create_commit_sequence_plus_two_witness:
  "fst (Execute sample_deps (sample_exe True) sample_createTx) = None \<and>
   advanced (sample_exe True) (snd (Execute sample_deps (sample_exe True) sample_createTx)) 1 2"
proof -
  let ?t = "CallTx (sample_input1 2000) None 1000 1000 [96, 1]"
  have "fst (Execute sample_deps (sample_exe True) ?t) = None \<and>
        advanced (sample_exe True) (snd (Execute sample_deps (sample_exe True) ?t))
          (in_Address (sample_input1 2000)) 2"
    by (rule create_commit_sequence_plus_two[where acc = sample_acc1 and acc' = sample_acc1
          and inp' = "sample_input1 2000" and caller = sample_caller and callee = sample_callee
          and code = "[96, 1]" and ret = "[96, 1]" and evs = "[VMEvent ''Acc/Call'' [96, 1]]"
          and txCache = "tc_UpdateAccount
              (tc_UpdateAccount
                 (tc_UpdateAccount
                    (tc_UpdateAccount
                       (NewTxCache (UpdateAccount (blockCache (sample_exe True))
                          (SubtractFromBalance (IncSequence sample_acc1) 1000)))
                       sample_caller)
                    sample_callee)
                 (SubtractFromBalance sample_caller 1000))
              (AddToBalance sample_callee 1000)",
          OF _ sample_keyed])
       (simp_all add: sample_caller_def sample_callee_def sample_defs model_defs)
  then show ?thesis by (simp add: sample_createTx_def sample_input1_def)
qed

text \<open>
  Counterexample to C6 as stated: in scenario S3 the creation succeeds in the commit
  path, the contract exists with its code, and account 1 goes from sequence 0 to
  sequence 2, not 1.
\<close>

theorem create_commit_sequence_counterexample:
  "runCall (sample_exe True) \<and>
   fst (Execute sample_deps (sample_exe True) sample_createTx) = None \<and>
   map_option Code
     (accounts (blockCache (snd (Execute sample_deps (sample_exe True) sample_createTx))) 4098)
     = Some [96, 1] \<and>
   map_option Sequence (accounts (blockCache (sample_exe True)) 1) = Some 0 \<and>
   map_option Sequence
     (accounts (blockCache (snd (Execute sample_deps (sample_exe True) sample_createTx))) 1) = Some 2 \<and>
   \<not> advanced (sample_exe True) (snd (Execute sample_deps (sample_exe True) sample_createTx)) 1 1"
  by (simp add: sample_createTx_def sample_defs model_defs advanced_def)

text \<open>
  Claim C7.  \<^verbatim>\<open>validateInput\<close> returns \<^verbatim>\<open>nil\<close> if and only if the basic validation
  of the input passes, the signature verifies the sign bytes under the account's public
  key, the input's sequence is the account's sequence plus one and the balance covers
  the amount.  A failed basic validation returns its error; then a bad signature is
  \<^verbatim>\<open>ErrTxInvalidSignature\<close> whatever sequence and balance are; then a sequence mismatch
  is \<^verbatim>\<open>ErrTxInvalidSequence{got, expected}\<close> whatever the balance is; then a short
  balance is \<^verbatim>\<open>ErrTxInsufficientFunds\<close>.
\<close>

theorem validateInput_spec:
  "(validateInput d acc sb inp = None \<longleftrightarrow>
      inputValidateBasic d inp = None \<and> verifyBytes d (PublicKey acc) sb (in_Signature inp) \<and>
      in_Sequence inp = Sequence acc + 1 \<and> in_Amount inp \<le> Balance acc) \<and>
   (\<forall>e. inputValidateBasic d inp = Some e \<longrightarrow> validateInput d acc sb inp = Some e) \<and>
   (inputValidateBasic d inp = None \<and> \<not> verifyBytes d (PublicKey acc) sb (in_Signature inp) \<longrightarrow>
      validateInput d acc sb inp = Some ErrTxInvalidSignature) \<and>
   (inputValidateBasic d inp = None \<and> verifyBytes d (PublicKey acc) sb (in_Signature inp) \<and>
    in_Sequence inp \<noteq> Sequence acc + 1 \<longrightarrow>
      validateInput d acc sb inp = Some (ErrTxInvalidSequence (in_Sequence inp) (Sequence acc + 1))) \<and>
   (inputValidateBasic d inp = None \<and> verifyBytes d (PublicKey acc) sb (in_Signature inp) \<and>
    in_Sequence inp = Sequence acc + 1 \<and> Balance acc < in_Amount inp \<longrightarrow>
      validateInput d acc sb inp = Some ErrTxInsufficientFunds)"
  by (auto simp: validateInput_def split: option.splits)

text \<open>
  Witness for C7: one input of account 1 for each outcome; the input with a wrong
  signature, a wrong sequence and too high an amount is refused for its signature.
\<close>

theorem validateInput_spec_witness:
  "validateInput sample_deps sample_acc1 [5] (sample_input1 10) = None \<and>
   validateInput sample_deps sample_acc1 [5] ((sample_input1 20000)\<lparr>in_Sequence := 7, in_Signature := []\<rparr>)
     = Some ErrTxInvalidSignature \<and>
   validateInput sample_deps sample_acc1 [5] ((sample_input1 20000)\<lparr>in_Sequence := 7\<rparr>)
     = Some (ErrTxInvalidSequence 7 1) \<and>
   validateInput sample_deps sample_acc1 [5] (sample_input1 20000) = Some ErrTxInsufficientFunds"
proof -
  have "inputValidateBasic sample_deps (sample_input1 10) = None \<and>
        verifyBytes sample_deps (PublicKey sample_acc1) [5] (in_Signature (sample_input1 10)) \<and>
        in_Sequence (sample_input1 10) = Sequence sample_acc1 + 1 \<and>
        in_Amount (sample_input1 10) \<le> Balance sample_acc1"
    by (simp add: sample_defs)
  with validateInput_spec[of sample_deps sample_acc1 "[5]" "sample_input1 10"]
  have 1: "validateInput sample_deps sample_acc1 [5] (sample_input1 10) = None" by blast
  have "inputValidateBasic sample_deps ((sample_input1 20000)\<lparr>in_Sequence := 7, in_Signature := []\<rparr>) = None \<and>
        \<not> verifyBytes sample_deps (PublicKey sample_acc1) [5]
            (in_Signature ((sample_input1 20000)\<lparr>in_Sequence := 7, in_Signature := []\<rparr>))"
    by (simp add: sample_defs)
  with validateInput_spec[of sample_deps sample_acc1 "[5]"
         "(sample_input1 20000)\<lparr>in_Sequence := 7, in_Signature := []\<rparr>"]
  have 2: "validateInput sample_deps sample_acc1 [5]
             ((sample_input1 20000)\<lparr>in_Sequence := 7, in_Signature := []\<rparr>)
           = Some ErrTxInvalidSignature" by blast
  have "inputValidateBasic sample_deps ((sample_input1 20000)\<lparr>in_Sequence := 7\<rparr>) = None \<and>
        verifyBytes sample_deps (PublicKey sample_acc1) [5]
            (in_Signature ((sample_input1 20000)\<lparr>in_Sequence := 7\<rparr>)) \<and>
        in_Sequence ((sample_input1 20000)\<lparr>in_Sequence := 7\<rparr>) \<noteq> Sequence sample_acc1 + 1"
    by (simp add: sample_defs)
  with validateInput_spec[of sample_deps sample_acc1 "[5]" "(sample_input1 20000)\<lparr>in_Sequence := 7\<rparr>"]
  have "validateInput sample_deps sample_acc1 [5] ((sample_input1 20000)\<lparr>in_Sequence := 7\<rparr>)
           = Some (ErrTxInvalidSequence (in_Sequence ((sample_input1 20000)\<lparr>in_Sequence := 7\<rparr>))
                     (Sequence sample_acc1 + 1))" by blast
  then have 3: "validateInput sample_deps sample_acc1 [5] ((sample_input1 20000)\<lparr>in_Sequence := 7\<rparr>)
           = Some (ErrTxInvalidSequence 7 1)"
    by (simp add: sample_defs)
  have "inputValidateBasic sample_deps (sample_input1 20000) = None \<and>
        verifyBytes sample_deps (PublicKey sample_acc1) [5] (in_Signature (sample_input1 20000)) \<and>
        in_Sequence (sample_input1 20000) = Sequence sample_acc1 + 1 \<and>
        Balance sample_acc1 < in_Amount (sample_input1 20000)"
    by (simp add: sample_defs)
  with validateInput_spec[of sample_deps sample_acc1 "[5]" "sample_input1 20000"]
  have 4: "validateInput sample_deps sample_acc1 [5] (sample_input1 20000) = Some ErrTxInsufficientFunds"
    by blast
  from 1 2 3 4 show ?thesis by simp
qed

text \<open>
  Claim C8.  From the same prior state, a checker (\<open>runCall = false\<close>) and a committer
  (\<open>runCall = true\<close>) return the same result for a SendTx and leave the same Block
  Cache; and in either path, when the SendTx succeeds (on a cache that stores every
  account under its own address), every input account's sequence has advanced by
  exactly one.
\<close>

theorem sendTx_check_commit_parity:
  "fst (Execute d (exe\<lparr>runCall := False\<rparr>) (SendTx ins outs))
     = fst (Execute d (exe\<lparr>runCall := True\<rparr>) (SendTx ins outs)) \<and>
   blockCache (snd (Execute d (exe\<lparr>runCall := False\<rparr>) (SendTx ins outs)))
     = blockCache (snd (Execute d (exe\<lparr>runCall := True\<rparr>) (SendTx ins outs))) \<and>
   (keyed (accounts (blockCache exe)) \<longrightarrow>
      (\<forall>b. fst (Execute d (exe\<lparr>runCall := b\<rparr>) (SendTx ins outs)) = None \<longrightarrow>
         (\<forall>inp \<in> set ins.
            advanced (exe\<lparr>runCall := b\<rparr>) (snd (Execute d (exe\<lparr>runCall := b\<rparr>) (SendTx ins outs)))
              (in_Address inp) 1)))"
proof (intro conjI impI allI ballI)
  show "fst (Execute d (exe\<lparr>runCall := False\<rparr>) (SendTx ins outs))
     = fst (Execute d (exe\<lparr>runCall := True\<rparr>) (SendTx ins outs))"
    by (simp add: executeSendTx_runCall)
  show "blockCache (snd (Execute d (exe\<lparr>runCall := False\<rparr>) (SendTx ins outs)))
     = blockCache (snd (Execute d (exe\<lparr>runCall := True\<rparr>) (SendTx ins outs)))"
    by (simp add: executeSendTx_runCall)
next
  fix b inp
  assume ky: "keyed (accounts (blockCache exe))"
    and ok: "fst (Execute d (exe\<lparr>runCall := b\<rparr>) (SendTx ins outs)) = None"
    and inp: "inp \<in> set ins"
  from ok have "executeSendTx d (exe\<lparr>runCall := b\<rparr>) ins outs
                  = (None, snd (Execute d (exe\<lparr>runCall := b\<rparr>) (SendTx ins outs)))"
    by (metis Execute.simps(1) prod.collapse)
  moreover from ky have "keyed (accounts (blockCache (exe\<lparr>runCall := b\<rparr>)))" by simp
  ultimately have "debited (exe\<lparr>runCall := b\<rparr>) (snd (Execute d (exe\<lparr>runCall := b\<rparr>) (SendTx ins outs)))
                     (in_Address inp) 1 (in_Amount inp)"
    using inp by (rule executeSendTx_inputs)
  then show "advanced (exe\<lparr>runCall := b\<rparr>) (snd (Execute d (exe\<lparr>runCall := b\<rparr>) (SendTx ins outs)))
               (in_Address inp) 1"
    by (rule debited_advanced)
qed

text \<open>
  Witness for C8: scenario S1 succeeds in both paths and advances the sequence of
  account 1 by one in both.
\<close>

theorem sendTx_check_commit_parity_witness:
  "fst (Execute sample_deps (sample_exe False) sample_sendTx) = None \<and>
   fst (Execute sample_deps (sample_exe True) sample_sendTx) = None \<and>
   advanced (sample_exe False) (snd (Execute sample_deps (sample_exe False) sample_sendTx)) 1 1 \<and>
   advanced (sample_exe True) (snd (Execute sample_deps (sample_exe True) sample_sendTx)) 1 1"
proof -
  have e: "(sample_exe True)\<lparr>runCall := b\<rparr> = sample_exe b" for b
    by (simp add: sample_exe_def newExecutor_def NewBlockCache_def)
  have k: "keyed (accounts (blockCache (sample_exe True)))" by (rule sample_keyed)
  have i: "sample_input1 600 \<in> set [sample_input1 600]" by simp
  from sendTx_check_commit_parity[of sample_deps "sample_exe True" "[sample_input1 600]"
         "[\<lparr>out_Address = 2, out_Amount = 600\<rparr>]"] k
  have "\<forall>b. fst (Execute sample_deps (sample_exe b) sample_sendTx) = None \<longrightarrow>
          (\<forall>inp \<in> set [sample_input1 600].
             advanced (sample_exe b) (snd (Execute sample_deps (sample_exe b) sample_sendTx))
               (in_Address inp) 1)"
    unfolding e sample_sendTx_def by blast
  with sample_send_ok i
  have "advanced (sample_exe b) (snd (Execute sample_deps (sample_exe b) sample_sendTx))
               (in_Address (sample_input1 600)) 1" for b
    by blast
  then have "advanced (sample_exe b) (snd (Execute sample_deps (sample_exe b) sample_sendTx)) 1 1" for b
    by (simp add: sample_input1_def)
  with sample_send_ok show ?thesis by simp
qed

text \<open>
  Claim C9.  If \<^verbatim>\<open>Execute\<close> returns an error for a SendTx, the Block Cache is the one
  before: the accounts are written only after every check has passed.
\<close>

theorem sendTx_error_leaves_cache:
  assumes "Execute d exe (SendTx ins outs) = (Some e, exe')"
  shows "blockCache exe' = blockCache exe"
  using assms executeSendTx_error[of d exe ins outs e exe'] by simp

text \<open>
  Witness for C9: the SendTx that pays out more than it takes in is refused with
  \<^verbatim>\<open>ErrTxInsufficientFunds\<close> and the Block Cache is unchanged.
\<close>

theorem sendTx_error_leaves_cache_witness:
  "fst (Execute sample_deps (sample_exe True) sample_shortTx) = Some ErrTxInsufficientFunds \<and>
   blockCache (snd (Execute sample_deps (sample_exe True) sample_shortTx)) = blockCache (sample_exe True)"
proof -
  have f: "fst (Execute sample_deps (sample_exe True) sample_shortTx) = Some ErrTxInsufficientFunds"
    by (simp add: sample_shortTx_def sample_defs model_defs)
  then have "Execute sample_deps (sample_exe True)
               (SendTx [sample_input1 600] [\<lparr>out_Address = 2, out_Amount = 700\<rparr>])
             = (Some ErrTxInsufficientFunds, snd (Execute sample_deps (sample_exe True) sample_shortTx))"
    unfolding sample_shortTx_def by (rule exec_pair)
  from sendTx_error_leaves_cache[OF this] f show ?thesis by simp
qed

text \<open>
  Claim C10.  A NameTx with value 0 (amount equal to the fee) and empty data, from a
  sender that has the Name permission and a valid input, naming an existing entry whose
  \<open>expires\<close> is not greater than the current height: \<^verbatim>\<open>Execute\<close> succeeds and the
  entry is gone, whoever owns the entry and whatever \<^verbatim>\<open>MinNameRegistrationPeriod\<close>
  is.
\<close>

theorem name_delete_expired:
  assumes "accounts (blockCache exe) (in_Address inp) = Some acc"
    and "hasNamePermission d (accounts (blockCache exe)) acc = Inr True"
    and "checkInputPubKey d acc inp = Inr (acc', inp')"
    and "validateInput d acc' (signBytes d (chainID exe) (NameTx inp' name [] fee)) inp' = None"
    and "in_Amount inp = fee"
    and "validateStrings d name [] = None"
    and "nameCostPerBlock d (nameBaseCost d name []) \<noteq> 0"
    and "names (blockCache exe) name = Some entry"
    and "Name entry = name"
    and "Expires entry \<le> LastBlockHeight (exe_tip exe)"
  shows "fst (Execute d exe (NameTx inp name [] fee)) = None \<and>
         names (blockCache (snd (Execute d exe (NameTx inp name [] fee)))) name = None"
  using executeNameTx_delete[OF assms] by simp

text \<open>
  Witness for C10: account 1 deletes the expired entry of account 2, with a minimum
  registration period of 5 blocks.
\<close>

theorem name_delete_expired_witness:
  "Owner sample_expired \<noteq> in_Address (sample_input1 1000) \<and>
   minNameRegistrationPeriod sample_deps = 5 \<and>
   fst (Execute sample_deps (sample_exe_named sample_expired) sample_deleteTx) = None \<and>
   names (blockCache (snd (Execute sample_deps (sample_exe_named sample_expired) sample_deleteTx))) ''foo''
     = None"
proof -
  have "fst (Execute sample_deps (sample_exe_named sample_expired)
               (NameTx (sample_input1 1000) ''foo'' [] 1000)) = None \<and>
        names (blockCache (snd (Execute sample_deps (sample_exe_named sample_expired)
               (NameTx (sample_input1 1000) ''foo'' [] 1000)))) ''foo'' = None"
    by (rule name_delete_expired[where acc = sample_acc1 and acc' = sample_acc1
          and inp' = "sample_input1 1000" and entry = sample_expired])
       (simp_all add: sample_exe_named_def sample_expired_def sample_defs model_defs)
  then show ?thesis by (simp add: sample_deleteTx_def sample_expired_def sample_input1_def sample_deps_def)
qed

end
